theory Spec2Isabelle
  imports Complex_Main "HOL-Library.Word"
begin

section \<open>Go values: errors, formatting verbs, dynamic values\<close>

subsection \<open>The \<open>error\<close> interface\<close>

text \<open>
  A Go \<open>error\<close> is \<open>nil\<close> or a value; the model uses \<open>error option\<close> with \<open>None\<close> for
  \<open>nil\<close>. The two package-level sentinels are constructors of their own (they are
  compared by identity, and \<open>errors.New\<close> gives every call a fresh identity), the result
  of \<open>fmt.Errorf\<close> without \<open>%w\<close> is its message, and the result of \<open>fmt.Errorf\<close> with
  \<open>%w\<close> is its message together with the wrapped error.
\<close>

datatype error =
    ErrValueRequired
  | ErrInvalidType
  | ErrorString string
  | WrapError string error

fun Error :: "error \<Rightarrow> string" where
  "Error ErrValueRequired = ''value is required''"
| "Error ErrInvalidType = ''invalid type''"
| "Error (ErrorString msg) = msg"
| "Error (WrapError msg err) = msg"

fun Unwrap :: "error \<Rightarrow> error option" where
  "Unwrap (WrapError msg err) = Some err"
| "Unwrap _ = None"


subsection \<open>The verbs \<open>%d\<close>, \<open>%q\<close> and \<open>%T\<close>\<close>

fun dec_nat :: "nat \<Rightarrow> string" where
  "dec_nat n =
     (if n < 10 then [''0123456789'' ! n]
      else dec_nat (n div 10) @ [''0123456789'' ! (n mod 10)])"

declare dec_nat.simps [simp del]

definition fmt_d :: "int \<Rightarrow> string" where
  "fmt_d i = (if i < 0 then CHR ''-'' # dec_nat (nat (- i)) else dec_nat (nat i))"

definition hex2 :: "nat \<Rightarrow> string" where
  "hex2 n = [''0123456789abcdef'' ! (n div 16), ''0123456789abcdef'' ! (n mod 16)]"

text \<open>
  \<open>%q\<close> on a string is \<open>strconv.Quote\<close>. The model is exact on ASCII bytes: the quote
  and the backslash are escaped, printable bytes are kept, the seven named control
  characters get their letter and the other control bytes a \<open>\x\<close> escape. Bytes from
  \<open>0x80\<close> on are kept, which is what \<open>Quote\<close> does for the UTF-8 encoding of a printable
  rune.
\<close>

definition quote_byte :: "char \<Rightarrow> string" where
  "quote_byte c =
     (let n = (of_char c :: nat) in
      if n = 0x22 then [CHR 0x5C, CHR 0x22]
      else if n = 0x5C then [CHR 0x5C, CHR 0x5C]
      else if 0x20 \<le> n \<and> n < 0x7F then [c]
      else if n = 7 then [CHR 0x5C, CHR ''a'']
      else if n = 8 then [CHR 0x5C, CHR ''b'']
      else if n = 12 then [CHR 0x5C, CHR ''f'']
      else if n = 10 then [CHR 0x5C, CHR ''n'']
      else if n = 13 then [CHR 0x5C, CHR ''r'']
      else if n = 9 then [CHR 0x5C, CHR ''t'']
      else if n = 11 then [CHR 0x5C, CHR ''v'']
      else if n < 0x20 \<or> n = 0x7F then [CHR 0x5C, CHR ''x''] @ hex2 n
      else [c])"

definition fmt_q :: "string \<Rightarrow> string" where
  "fmt_q s = [CHR 0x22] @ concat (map quote_byte s) @ [CHR 0x22]"

subsection \<open>Floating point, as far as the library looks at it\<close>

text \<open>
  The schemas only compare numbers. A \<open>float64\<close> is modelled by the extended real it
  denotes, or \<open>NaN\<close>; the two zeros are one value (they compare equal). The comparison
  operators are those of the Go specification: every ordered comparison with \<open>NaN\<close> is
  false. Real numbers that no \<open>float64\<close> denotes are values of the model too; every
  operation that rounds is a parameter (see \<open>stdlib\<close> below).
\<close>

datatype float64 = NaN | NegInf | Finite real | PosInf

fun float64_less :: "float64 \<Rightarrow> float64 \<Rightarrow> bool" where
  "float64_less NaN y = False"
| "float64_less x NaN = False"
| "float64_less PosInf y = False"
| "float64_less x NegInf = False"
| "float64_less NegInf y = True"
| "float64_less x PosInf = True"
| "float64_less (Finite a) (Finite b) = (a < b)"

fun float64_eq :: "float64 \<Rightarrow> float64 \<Rightarrow> bool" where
  "float64_eq NaN y = False"
| "float64_eq x NaN = False"
| "float64_eq x y = (x = y)"

instantiation float64 :: "{ord, zero}"
begin

definition zero_float64 :: float64 where
  "zero_float64 = Finite 0"

definition less_float64 :: "float64 \<Rightarrow> float64 \<Rightarrow> bool" where
  "less_float64 x y = float64_less x y"

definition less_eq_float64 :: "float64 \<Rightarrow> float64 \<Rightarrow> bool" where
  "less_eq_float64 x y = (float64_less x y \<or> float64_eq x y)"

instance ..

end




subsection \<open>Slices, pointers and \<open>any\<close>\<close>

text \<open>
  A slice is \<open>nil\<close> or a sequence, a pointer is \<open>nil\<close> or points to a value. A value of
  type \<open>any\<close> is \<open>nil\<close> or a value of some dynamic type: the types the library and its
  adapter switch on have a constructor each, and every other type is \<open>AOther\<close> with the
  name \<open>%T\<close> prints and the value itself (\<open>'u\<close> is the universe of these values).
  \<open>int\<close> and \<open>uint\<close> are taken to be 64 bits wide. A map is only ever read by key, so
  \<open>map[string]any\<close> is a partial function and the \<open>nil\<close> map is the empty one.
\<close>

type_synonym 'a slice = "'a list option"

definition len :: "'a slice \<Rightarrow> int" where
  "len arr = (case arr of None \<Rightarrow> 0 | Some xs \<Rightarrow> int (length xs))"

definition elems :: "'a slice \<Rightarrow> 'a list" where
  "elems arr = (case arr of None \<Rightarrow> [] | Some xs \<Rightarrow> xs)"

datatype 'u any =
    ANil
  | ABool bool
  | AString string
  | AInt "64 word"
  | AInt8 "8 word"
  | AInt16 "16 word"
  | AInt32 "32 word"
  | AInt64 "64 word"
  | AUint "64 word"
  | AUint8 "8 word"
  | AUint16 "16 word"
  | AUint32 "32 word"
  | AUint64 "64 word"
  | AFloat64 float64
  | ASlice "'u any list option"
  | AMap "string \<Rightarrow> 'u any option"
  | AOther string 'u

fun fmt_T :: "'u any \<Rightarrow> string" where
  "fmt_T ANil = ''<nil>''"
| "fmt_T (ABool b) = ''bool''"
| "fmt_T (AString s) = ''string''"
| "fmt_T (AInt w) = ''int''"
| "fmt_T (AInt8 w) = ''int8''"
| "fmt_T (AInt16 w) = ''int16''"
| "fmt_T (AInt32 w) = ''int32''"
| "fmt_T (AInt64 w) = ''int64''"
| "fmt_T (AUint w) = ''uint''"
| "fmt_T (AUint8 w) = ''uint8''"
| "fmt_T (AUint16 w) = ''uint16''"
| "fmt_T (AUint32 w) = ''uint32''"
| "fmt_T (AUint64 w) = ''uint64''"
| "fmt_T (AFloat64 f) = ''float64''"
| "fmt_T (ASlice xs) = ''[]interface {}''"
| "fmt_T (AMap m) = ''map[string]interface {}''"
| "fmt_T (AOther name u) = name"

text \<open>
  A type parameter \<open>T\<close> that is converted to \<open>any\<close> and asserted back is given by the
  conversion \<open>any(value)\<close>, the assertion on a non-nil interface value and the zero
  value. A type assertion on the \<open>nil\<close> interface value fails for every \<open>T\<close>.
\<close>

record ('a, 'u) go_type =
  to_any :: "'a \<Rightarrow> 'u any"
  assert_dyn :: "'u any \<Rightarrow> 'a option"
  zero_value :: 'a

definition type_assert :: "('a, 'u) go_type \<Rightarrow> 'u any \<Rightarrow> 'a option" where
  "type_assert T value = (case value of ANil \<Rightarrow> None | _ \<Rightarrow> assert_dyn T value)"


definition T_map :: "(string \<Rightarrow> 'u any option, 'u) go_type" where
  "T_map = \<lparr>to_any = AMap,
            assert_dyn = (\<lambda>v. case v of AMap m \<Rightarrow> Some m | _ \<Rightarrow> None),
            zero_value = Map.empty\<rparr>"

definition T_named :: "string \<Rightarrow> 'u \<Rightarrow> ('u, 'u) go_type" where
  "T_named name z =
     \<lparr>to_any = AOther name,
      assert_dyn = (\<lambda>v. case v of AOther n u \<Rightarrow> (if n = name then Some u else None)
                               | _ \<Rightarrow> None),
      zero_value = z\<rparr>"

section \<open>validator.go: the base schema\<close>

text \<open>
  \<open>Schema[T]\<close> is the list of its validators. The typed schemas embed it, so they are
  record extensions of it and the functions of the base schema accept them too.
\<close>

record 'a Schema =
  validators :: "('a \<Rightarrow> error option) list"

definition New :: "'a Schema" where
  "New = \<lparr>validators = []\<rparr>"

text \<open>
  The loop of \<open>Validate\<close>. Beside the error it returns, the model records which
  validators the loop called, by their index in the list and in the order of the calls:
  a validator is a Go closure, and whether it ran is observable.
\<close>

fun run_validators ::
  "('a \<Rightarrow> error option) list \<Rightarrow> nat \<Rightarrow> 'a \<Rightarrow> error option \<times> nat list" where
  "run_validators [] i value = (None, [])"
| "run_validators (validator # rest) i value =
     (case validator value of
        Some err \<Rightarrow> (Some err, [i])
      | None \<Rightarrow> (case run_validators rest (Suc i) value of
                   (result, calls) \<Rightarrow> (result, i # calls)))"

definition Schema_Validate_run ::
  "('a, 'm) Schema_scheme \<Rightarrow> 'a \<Rightarrow> error option \<times> nat list" where
  "Schema_Validate_run s value = run_validators (validators s) 0 value"

definition Schema_Validate :: "('a, 'm) Schema_scheme \<Rightarrow> 'a \<Rightarrow> error option" where
  "Schema_Validate s value = fst (Schema_Validate_run s value)"

definition Schema_Custom ::
  "('a, 'm) Schema_scheme \<Rightarrow> ('a \<Rightarrow> error option) \<Rightarrow> ('a, 'm) Schema_scheme" where
  "Schema_Custom s fn = s\<lparr>validators := validators s @ [fn]\<rparr>"

section \<open>The string schema\<close>

record Regexp =
  re_String :: string
  re_MatchString :: "string \<Rightarrow> bool"

record StringSchema = "string Schema" +
  str_required :: bool

definition String :: StringSchema where
  "String = \<lparr>validators = [], str_required = False\<rparr>"

definition StringSchema_Required :: "StringSchema \<Rightarrow> StringSchema" where
  "StringSchema_Required s = s\<lparr>str_required := True\<rparr>"

definition StringSchema_Min :: "StringSchema \<Rightarrow> int \<Rightarrow> StringSchema" where
  "StringSchema_Min s min' = s\<lparr>validators := validators s @
     [\<lambda>v. if int (length v) < min'
           then Some (ErrorString (''length must be at least '' @ fmt_d min'))
           else None]\<rparr>"

definition StringSchema_Max :: "StringSchema \<Rightarrow> int \<Rightarrow> StringSchema" where
  "StringSchema_Max s max' = s\<lparr>validators := validators s @
     [\<lambda>v. if int (length v) > max'
           then Some (ErrorString (''length must be at most '' @ fmt_d max'))
           else None]\<rparr>"

definition StringSchema_Length :: "StringSchema \<Rightarrow> int \<Rightarrow> StringSchema" where
  "StringSchema_Length s length' = s\<lparr>validators := validators s @
     [\<lambda>v. if int (length v) \<noteq> length'
           then Some (ErrorString (''length must be exactly '' @ fmt_d length'))
           else None]\<rparr>"

definition StringSchema_Regexp :: "StringSchema \<Rightarrow> Regexp \<Rightarrow> StringSchema" where
  "StringSchema_Regexp s re = s\<lparr>validators := validators s @
     [\<lambda>v. if \<not> re_MatchString re v
           then Some (ErrorString (''string must match pattern '' @ fmt_q (re_String re)))
           else None]\<rparr>"

definition StringSchema_Validate_run ::
  "StringSchema \<Rightarrow> string \<Rightarrow> error option \<times> nat list" where
  "StringSchema_Validate_run s value =
     (if value = [] \<and> str_required s then (Some ErrValueRequired, [])
      else Schema_Validate_run s value)"

definition StringSchema_Validate :: "StringSchema \<Rightarrow> string \<Rightarrow> error option" where
  "StringSchema_Validate s value = fst (StringSchema_Validate_run s value)"

section \<open>number.go: the number schema\<close>

text \<open>
  \<open>T\<close> is one of the integer and floating point types: the model asks for its
  comparison and its zero (the classes \<open>ord\<close> and \<open>zero\<close>, which promise no law), and
  takes what \<open>%v\<close> prints for a \<open>T\<close> as the argument of the constructor. A signed
  integer is represented by the integer it denotes, an unsigned one by that or by a
  word, \<open>float64\<close> by the type above.
\<close>

record 'a NumberSchema = "'a Schema" +
  num_required :: bool
  fmt_v :: "'a \<Rightarrow> string"

definition Number :: "('a \<Rightarrow> string) \<Rightarrow> 'a NumberSchema" where
  "Number fmt = \<lparr>validators = [], num_required = False, fmt_v = fmt\<rparr>"

definition NumberSchema_Required :: "'a NumberSchema \<Rightarrow> 'a NumberSchema" where
  "NumberSchema_Required s = s\<lparr>num_required := True\<rparr>"

definition NumberSchema_Validate_run ::
  "'a::{ord,zero} NumberSchema \<Rightarrow> 'a \<Rightarrow> error option \<times> nat list" where
  "NumberSchema_Validate_run s value =
     (if value = 0 \<and> num_required s then (Some ErrValueRequired, [])
      else Schema_Validate_run s value)"

definition NumberSchema_Validate :: "'a::{ord,zero} NumberSchema \<Rightarrow> 'a \<Rightarrow> error option" where
  "NumberSchema_Validate s value = fst (NumberSchema_Validate_run s value)"

definition NumberSchema_Min :: "'a::{ord,zero} NumberSchema \<Rightarrow> 'a \<Rightarrow> 'a NumberSchema" where
  "NumberSchema_Min s min' = s\<lparr>validators := validators s @
     [\<lambda>v. if v < min'
           then Some (ErrorString (''value must be at least '' @ fmt_v s min'))
           else None]\<rparr>"

definition NumberSchema_Max :: "'a::{ord,zero} NumberSchema \<Rightarrow> 'a \<Rightarrow> 'a NumberSchema" where
  "NumberSchema_Max s max' = s\<lparr>validators := validators s @
     [\<lambda>v. if v > max'
           then Some (ErrorString (''value must be at most '' @ fmt_v s max'))
           else None]\<rparr>"

section \<open>bool.go and null.go\<close>

type_synonym BoolSchema = "bool Schema"

definition Bool :: BoolSchema where
  "Bool = New"

definition BoolSchema_Validate :: "BoolSchema \<Rightarrow> bool \<Rightarrow> error option" where
  "BoolSchema_Validate s value = Schema_Validate s value"

definition BoolSchema_MustBeTrue :: "BoolSchema \<Rightarrow> BoolSchema" where
  "BoolSchema_MustBeTrue s = s\<lparr>validators := validators s @
     [\<lambda>v. if \<not> v then Some (ErrorString ''bool value must be true'') else None]\<rparr>"

definition BoolSchema_MustBeFalse :: "BoolSchema \<Rightarrow> BoolSchema" where
  "BoolSchema_MustBeFalse s = s\<lparr>validators := validators s @
     [\<lambda>v. if v then Some (ErrorString ''bool value must be false'') else None]\<rparr>"

type_synonym 'u NullSchema = "'u any Schema"

definition Null :: "'u NullSchema" where
  "Null = New"

definition NullSchema_Validate :: "'u NullSchema \<Rightarrow> 'u any \<Rightarrow> error option" where
  "NullSchema_Validate s value =
     (if value \<noteq> ANil
      then Some (ErrorString (''expected null value, got '' @ fmt_T value))
      else Schema_Validate s value)"

section \<open>The pointer schema\<close>

record 'a PointerSchema = "'a option Schema" +
  ptr_required :: bool

definition Pointer :: "'a PointerSchema" where
  "Pointer = \<lparr>validators = [], ptr_required = False\<rparr>"

definition PointerSchema_Required :: "'a PointerSchema \<Rightarrow> 'a PointerSchema" where
  "PointerSchema_Required s = s\<lparr>ptr_required := True\<rparr>"

definition PointerSchema_NotNil :: "'a PointerSchema \<Rightarrow> 'a PointerSchema" where
  "PointerSchema_NotNil s = PointerSchema_Required s"

definition PointerSchema_Custom ::
  "'a PointerSchema \<Rightarrow> ('a option \<Rightarrow> error option) \<Rightarrow> 'a PointerSchema" where
  "PointerSchema_Custom s fn = Schema_Custom s fn"

definition PointerSchema_Validate :: "'a PointerSchema \<Rightarrow> 'a option \<Rightarrow> error option" where
  "PointerSchema_Validate s value =
     (if value = None \<and> ptr_required s then Some ErrValueRequired
      else Schema_Validate s value)"

text \<open>
  \<open>Ptr\<close> takes a \<open>Validator[T]\<close>, an interface with the one method \<open>Validate\<close>: the
  model passes that method.
\<close>

definition Ptr :: "('a \<Rightarrow> error option) \<Rightarrow> 'a PointerSchema" where
  "Ptr schema_Validate =
     PointerSchema_Custom Pointer
       (\<lambda>value. case value of None \<Rightarrow> None | Some v \<Rightarrow> schema_Validate v)"

section \<open>array.go: the array schema\<close>

record 'a ArraySchema = "'a slice Schema" +
  itemValidator :: "('a \<Rightarrow> error option) option"

definition Array :: "'a ArraySchema" where
  "Array = \<lparr>validators = [], itemValidator = None\<rparr>"

fun items_loop :: "('a \<Rightarrow> error option) \<Rightarrow> nat \<Rightarrow> 'a list \<Rightarrow> error option" where
  "items_loop validator i [] = None"
| "items_loop validator i (item # rest) =
     (case validator item of
        Some err \<Rightarrow>
          Some (WrapError (''invalid item at index '' @ fmt_d (int i) @ '': '' @ Error err) err)
      | None \<Rightarrow> items_loop validator (Suc i) rest)"

definition ArraySchema_Items ::
  "'a ArraySchema \<Rightarrow> ('a \<Rightarrow> error option) \<Rightarrow> 'a ArraySchema" where
  "ArraySchema_Items s validator =
     s\<lparr>validators := validators s @ [\<lambda>arr. items_loop validator 0 (elems arr)],
       itemValidator := Some validator\<rparr>"

definition ArraySchema_Min :: "'a ArraySchema \<Rightarrow> int \<Rightarrow> 'a ArraySchema" where
  "ArraySchema_Min s min' = s\<lparr>validators := validators s @
     [\<lambda>arr. if len arr < min'
             then Some (ErrorString (''array length must be at least '' @ fmt_d min'))
             else None]\<rparr>"

definition ArraySchema_Max :: "'a ArraySchema \<Rightarrow> int \<Rightarrow> 'a ArraySchema" where
  "ArraySchema_Max s max' = s\<lparr>validators := validators s @
     [\<lambda>arr. if len arr > max'
             then Some (ErrorString (''array length must be at most '' @ fmt_d max'))
             else None]\<rparr>"

definition ArraySchema_Length :: "'a ArraySchema \<Rightarrow> int \<Rightarrow> 'a ArraySchema" where
  "ArraySchema_Length s length' = s\<lparr>validators := validators s @
     [\<lambda>arr. if len arr \<noteq> length'
             then Some (ErrorString (''array length must be exactly '' @ fmt_d length'))
             else None]\<rparr>"

text \<open>
  \<open>UniqueItems\<close> compares the items by their JSON encoding; \<open>json.Marshal\<close> at the item
  type is the first argument of the model.
\<close>

fun unique_loop ::
  "('a \<Rightarrow> error + string) \<Rightarrow> string set \<Rightarrow> nat \<Rightarrow> 'a list \<Rightarrow> error option" where
  "unique_loop json_Marshal seen i [] = None"
| "unique_loop json_Marshal seen i (item # rest) =
     (case json_Marshal item of
        Inl err \<Rightarrow>
          Some (WrapError (''failed to marshal array item for uniqueness check at index ''
                           @ fmt_d (int i) @ '': '' @ Error err) err)
      | Inr keyStr \<Rightarrow>
          if keyStr \<in> seen
          then Some (ErrorString (''array items must be unique (duplicate found at index ''
                                  @ fmt_d (int i) @ '')''))
          else unique_loop json_Marshal (insert keyStr seen) (Suc i) rest)"

definition ArraySchema_UniqueItems ::
  "('a \<Rightarrow> error + string) \<Rightarrow> 'a ArraySchema \<Rightarrow> 'a ArraySchema" where
  "ArraySchema_UniqueItems json_Marshal s = s\<lparr>validators := validators s @
     [\<lambda>arr. unique_loop json_Marshal {} 0 (elems arr)]\<rparr>"

definition ArraySchema_Validate_run ::
  "'a ArraySchema \<Rightarrow> 'a slice \<Rightarrow> error option \<times> nat list" where
  "ArraySchema_Validate_run s value =
     (if value = None then run_validators (validators s) 0 (Some [])
      else Schema_Validate_run s value)"

definition ArraySchema_Validate :: "'a ArraySchema \<Rightarrow> 'a slice \<Rightarrow> error option" where
  "ArraySchema_Validate s value = fst (ArraySchema_Validate_run s value)"

section \<open>object.go: the object schema\<close>

text \<open>
  \<open>fieldValidators\<close> is a Go map. A \<open>range\<close> over a map visits every key once, in an
  order the language leaves open: the functions that range over a map take the order
  of the visit as their first argument, and the theorems hold for every order.
\<close>

definition range_order :: "('k \<Rightarrow> 'v option) \<Rightarrow> 'k list \<Rightarrow> bool" where
  "range_order m order = (distinct order \<and> set order = dom m)"

record ('a, 'u) ObjectSchema = "'a Schema" +
  fieldValidators :: "string \<Rightarrow> ('u any \<Rightarrow> error option) option"
  obj_T :: "('a, 'u) go_type"

definition Object :: "('a, 'u) go_type \<Rightarrow> ('a, 'u) ObjectSchema" where
  "Object T = \<lparr>validators = [], fieldValidators = Map.empty, obj_T = T\<rparr>"

text \<open>
  The closure \<open>Field\<close> stores. \<open>typedValue, _ := value.(T)\<close> gives the zero value
  of \<open>T\<close> when the assertion fails.
\<close>

definition assert_or_zero :: "('a, 'u) go_type \<Rightarrow> 'u any \<Rightarrow> 'a" where
  "assert_or_zero T value = (case type_assert T value of Some v \<Rightarrow> v | None \<Rightarrow> zero_value T)"

definition field_validator ::
  "('a, 'u) go_type \<Rightarrow> string \<Rightarrow> ('a \<Rightarrow> error option) \<Rightarrow> 'u any \<Rightarrow> error option" where
  "field_validator T fieldName validateFn value =
     (let typedValue = assert_or_zero T value
      in case validateFn typedValue of
           Some err \<Rightarrow>
             Some (WrapError (''validation failed for field '' @ fmt_q fieldName @ '': ''
                              @ Error err) err)
         | None \<Rightarrow> None)"

definition ObjectSchema_Field ::
  "('a, 'u) ObjectSchema \<Rightarrow> string \<Rightarrow> ('a \<Rightarrow> error option) \<Rightarrow> ('a, 'u) ObjectSchema" where
  "ObjectSchema_Field s fieldName validateFn =
     s\<lparr>fieldValidators :=
         (fieldValidators s)(fieldName \<mapsto> field_validator (obj_T s) fieldName validateFn)\<rparr>"

definition ValidateField :: "('a \<Rightarrow> 'f) \<Rightarrow> ('f \<Rightarrow> error option) \<Rightarrow> 'a \<Rightarrow> error option" where
  "ValidateField getter schema_Validate = (\<lambda>value. schema_Validate (getter value))"

fun Map_loop ::
  "(string \<Rightarrow> ('a \<Rightarrow> error option) option) \<Rightarrow> string list \<Rightarrow> ('a, 'u) ObjectSchema
     \<Rightarrow> ('a, 'u) ObjectSchema" where
  "Map_loop fvs [] s = s"
| "Map_loop fvs (fieldName # rest) s =
     (case fvs fieldName of
        Some validateFn \<Rightarrow> Map_loop fvs rest (ObjectSchema_Field s fieldName validateFn)
      | None \<Rightarrow> Map_loop fvs rest s)"

definition ObjectSchema_Map ::
  "string list \<Rightarrow> ('a, 'u) ObjectSchema \<Rightarrow> (string \<Rightarrow> ('a \<Rightarrow> error option) option)
     \<Rightarrow> ('a, 'u) ObjectSchema" where
  "ObjectSchema_Map order s fvs = Map_loop fvs order s"

text \<open>The index expression \<open>values[fieldName]\<close>: \<open>nil\<close> when the key is absent.\<close>

definition map_index :: "(string \<Rightarrow> 'u any option) \<Rightarrow> string \<Rightarrow> 'u any" where
  "map_index values fieldName = (case values fieldName of Some v \<Rightarrow> v | None \<Rightarrow> ANil)"

fun ValidateMap_loop ::
  "(string \<Rightarrow> ('u any \<Rightarrow> error option) option) \<Rightarrow> string list
     \<Rightarrow> (string \<Rightarrow> 'u any option) \<Rightarrow> error option" where
  "ValidateMap_loop fvs [] values = None"
| "ValidateMap_loop fvs (fieldName # rest) values =
     (case fvs fieldName of
        Some validateFn \<Rightarrow>
          (let value = map_index values fieldName
           in case validateFn value of
                Some err \<Rightarrow> Some err
              | None \<Rightarrow> ValidateMap_loop fvs rest values)
      | None \<Rightarrow> ValidateMap_loop fvs rest values)"

definition ObjectSchema_ValidateMap ::
  "string list \<Rightarrow> ('a, 'u) ObjectSchema \<Rightarrow> (string \<Rightarrow> 'u any option) \<Rightarrow> error option" where
  "ObjectSchema_ValidateMap order s values = ValidateMap_loop (fieldValidators s) order values"

fun Validate_loop ::
  "(string \<Rightarrow> ('u any \<Rightarrow> error option) option) \<Rightarrow> string list \<Rightarrow> 'u any
     \<Rightarrow> error option" where
  "Validate_loop fvs [] value = None"
| "Validate_loop fvs (fieldName # rest) value =
     (case fvs fieldName of
        Some validator \<Rightarrow>
          (case validator value of
             Some err \<Rightarrow> Some err
           | None \<Rightarrow> Validate_loop fvs rest value)
      | None \<Rightarrow> Validate_loop fvs rest value)"

definition ObjectSchema_Validate ::
  "string list \<Rightarrow> ('a, 'u) ObjectSchema \<Rightarrow> 'a \<Rightarrow> error option" where
  "ObjectSchema_Validate order s value =
     (case to_any (obj_T s) value of
        AMap mapValue \<Rightarrow> ObjectSchema_ValidateMap order s mapValue
      | boxed \<Rightarrow> Validate_loop (fieldValidators s) order boxed)"

section \<open>The JSON Schema adapter\<close>


text \<open>
  What the adapter takes from the standard library and the runtime:
  \<open>regexp.Compile\<close>, \<open>json.Number.Float64\<close>, \<open>json.Marshal\<close> on an \<open>any\<close>, the
  conversions \<open>int64(f)\<close> and \<open>float64(i)\<close>, \<open>%v\<close> on a \<open>float64\<close>, and the order in
  which \<open>range\<close> visits the keys of a map of field validators.
\<close>

record 'u stdlib =
  regexp_Compile :: "string \<Rightarrow> error + Regexp"
  Number_Float64 :: "string \<Rightarrow> error + float64"
  json_Marshal :: "'u any \<Rightarrow> error + string"
  int64_of_float64 :: "float64 \<Rightarrow> int"
  float64_of_int :: "int \<Rightarrow> float64"
  fmt_v_float64 :: "float64 \<Rightarrow> string"
  range_keys :: "(string \<Rightarrow> ('u any \<Rightarrow> error option) option) \<Rightarrow> string list"



subsection \<open>The closures the adapter returns\<close>








subsection \<open>\<open>parseJSONSchema\<close>\<close>









section \<open>Notions used in the statements\<close>

text \<open>
  A builder attaches a validator when the list of the schema it returns is the list of
  the schema it was given with one validator at the end.
\<close>

definition attaches_one :: "('a, 'm) Schema_scheme \<Rightarrow> ('a, 'm) Schema_scheme \<Rightarrow> bool" where
  "attaches_one s s' = (\<exists>p. validators s' = validators s @ [p])"

text \<open>
  \<open>fieldValidators\<close> is not exported: every entry is a closure stored by \<open>Field\<close>.
  \<open>registered s fns\<close> says that the entries of \<open>s\<close> are the closures of \<open>Field\<close> for the
  functions \<open>fns\<close> the caller passed, by field name.
\<close>

definition registered ::
  "('a, 'u) ObjectSchema \<Rightarrow> (string \<Rightarrow> ('a \<Rightarrow> error option) option) \<Rightarrow> bool" where
  "registered s fns =
     (\<forall>name. fieldValidators s name = map_option (field_validator (obj_T s) name) (fns name))"

text \<open>
  The value of type \<open>T\<close> that the function registered for \<open>fieldName\<close> receives when
  \<open>Validate\<close> is given \<open>value\<close>.
\<close>

definition field_arg :: "('a, 'u) go_type \<Rightarrow> 'a \<Rightarrow> string \<Rightarrow> 'a" where
  "field_arg T value fieldName =
     assert_or_zero T (case to_any T value of
                         AMap mapValue \<Rightarrow> map_index mapValue fieldName
                       | boxed \<Rightarrow> boxed)"

text \<open>
  The value fails exactly one field: the function registered for \<open>fieldName\<close> returns
  \<open>err\<close>, and every other registered function returns \<open>nil\<close>.
\<close>

definition fails_only ::
  "(string \<Rightarrow> ('a \<Rightarrow> error option) option) \<Rightarrow> (string \<Rightarrow> 'a) \<Rightarrow> string \<Rightarrow> error \<Rightarrow> bool" where
  "fails_only fns arg fieldName err =
     ((\<exists>fn. fns fieldName = Some fn \<and> fn (arg fieldName) = Some err) \<and>
      (\<forall>other fn. other \<noteq> fieldName \<and> fns other = Some fn \<longrightarrow> fn (arg other) = None))"

text \<open>A byte that \<open>%q\<close> prints as it is.\<close>

definition plain_byte :: "char \<Rightarrow> bool" where
  "plain_byte c = (0x20 \<le> (of_char c :: nat) \<and> (of_char c :: nat) < 0x7F
                   \<and> (of_char c :: nat) \<noteq> 0x22 \<and> (of_char c :: nat) \<noteq> 0x5C)"

text \<open>
  The constraint builders of the array schema, as data: a schema built from \<open>Array()\<close>
  by a sequence of calls is \<open>build_array\<close> of the list of the calls. A constraint admits
  the empty sequence when the validator it attaches accepts a sequence of length zero:
  a minimum that is not positive, a maximum that is not negative, the exact length
  zero, and the uniqueness and item constraints, which have nothing to look at.
\<close>

datatype 'a array_constraint =
    CMin int
  | CMax int
  | CLength int
  | CUniqueItems "'a \<Rightarrow> error + string"
  | CItems "'a \<Rightarrow> error option"

fun attach_constraint :: "'a ArraySchema \<Rightarrow> 'a array_constraint \<Rightarrow> 'a ArraySchema" where
  "attach_constraint s (CMin n) = ArraySchema_Min s n"
| "attach_constraint s (CMax n) = ArraySchema_Max s n"
| "attach_constraint s (CLength n) = ArraySchema_Length s n"
| "attach_constraint s (CUniqueItems marshal) = ArraySchema_UniqueItems marshal s"
| "attach_constraint s (CItems validator) = ArraySchema_Items s validator"

definition build_array :: "'a array_constraint list \<Rightarrow> 'a ArraySchema" where
  "build_array cs = foldl attach_constraint Array cs"

definition constraint_validator :: "'a array_constraint \<Rightarrow> 'a slice \<Rightarrow> error option" where
  "constraint_validator c = last (validators (attach_constraint Array c))"

fun admits_empty :: "'a array_constraint \<Rightarrow> bool" where
  "admits_empty (CMin n) = (n \<le> 0)"
| "admits_empty (CMax n) = (0 \<le> n)"
| "admits_empty (CLength n) = (n = 0)"
| "admits_empty (CUniqueItems marshal) = True"
| "admits_empty (CItems validator) = True"

text \<open>
  The per-key path, in the words of the claim about it: the function registered for a
  field receives the entry of the map under the field's name asserted to \<open>T\<close>, or the
  zero value of \<open>T\<close> when the key is absent or the assertion fails; the fields are
  visited in the order of the \<open>range\<close>, and the first error, wrapped with the name of its
  field, is the result.
\<close>

definition per_key_arg :: "('a, 'u) go_type \<Rightarrow> (string \<Rightarrow> 'u any option) \<Rightarrow> string \<Rightarrow> 'a" where
  "per_key_arg T mapValue fieldName =
     (case mapValue fieldName of
        None \<Rightarrow> zero_value T
      | Some entry \<Rightarrow> (case type_assert T entry of Some v \<Rightarrow> v | None \<Rightarrow> zero_value T))"

definition wrap_field :: "string \<Rightarrow> error \<Rightarrow> error" where
  "wrap_field fieldName err =
     WrapError (''validation failed for field '' @ fmt_q fieldName @ '': '' @ Error err) err"

fun first_error :: "error option list \<Rightarrow> error option" where
  "first_error [] = None"
| "first_error (Some err # rest) = Some err"
| "first_error (None # rest) = first_error rest"

definition per_key_path ::
  "('a, 'u) go_type \<Rightarrow> (string \<Rightarrow> ('a \<Rightarrow> error option) option) \<Rightarrow> string list
     \<Rightarrow> (string \<Rightarrow> 'u any option) \<Rightarrow> error option" where
  "per_key_path T fns order mapValue =
     first_error
       (map (\<lambda>fieldName.
               case fns fieldName of
                 None \<Rightarrow> None
               | Some fn \<Rightarrow> map_option (wrap_field fieldName) (fn (per_key_arg T mapValue fieldName)))
            order)"







section \<open>The types of \<open>ExampleObjectSchema_Map\<close>\<close>

text \<open>
  The test suite validates a struct \<open>Foo\<close> with a string field and a field of the
  struct type \<open>Baz\<close>; the universe of the dynamic values of these examples holds both.
\<close>

datatype Baz = Baz (Quo: string)

datatype Foo = Foo (Bar: string) (Foo_Baz: Baz)

datatype example_types = UFoo Foo | UBaz Baz

definition T_Foo :: "(Foo, example_types) go_type" where
  "T_Foo = \<lparr>to_any = (\<lambda>v. AOther ''main.Foo'' (UFoo v)),
            assert_dyn = (\<lambda>x. case x of AOther n (UFoo v) \<Rightarrow> Some v | _ \<Rightarrow> None),
            zero_value = Foo [] (Baz [])\<rparr>"

definition T_Baz :: "(Baz, example_types) go_type" where
  "T_Baz = \<lparr>to_any = (\<lambda>v. AOther ''main.Baz'' (UBaz v)),
            assert_dyn = (\<lambda>x. case x of AOther n (UBaz v) \<Rightarrow> Some v | _ \<Rightarrow> None),
            zero_value = Baz []\<rparr>"

definition baz_fields :: "string \<Rightarrow> (Baz \<Rightarrow> error option) option" where
  "baz_fields = [''quo'' \<mapsto> (\<lambda>a. StringSchema_Validate (StringSchema_Max String 5) (Quo a))]"

definition baz_schema :: "(Baz, example_types) ObjectSchema" where
  "baz_schema = ObjectSchema_Map [''quo''] (Object T_Baz) baz_fields"

definition foo_fields :: "string \<Rightarrow> (Foo \<Rightarrow> error option) option" where
  "foo_fields =
     [''bar'' \<mapsto> (\<lambda>u. StringSchema_Validate (StringSchema_Max String 5) (Bar u)),
      ''baz'' \<mapsto> ValidateField Foo_Baz (ObjectSchema_Validate [''quo''] baz_schema)]"

definition foo_schema :: "(Foo, example_types) ObjectSchema" where
  "foo_schema = ObjectSchema_Map [''bar'', ''baz''] (Object T_Foo) foo_fields"

section \<open>The standard library at the inputs of the build-error examples\<close>


section \<open>The base schema runs its validators in order and stops at the first error\<close>

lemma upt_shift: "[k..<k + Suc n] = k # [Suc k..<Suc k + n]"
  by (simp add: upt_conv_Cons del: upt_Suc)

lemma run_validators_first_failure:
  "i < length fs \<Longrightarrow> \<forall>j<i. (fs ! j) v = None \<Longrightarrow> (fs ! i) v = Some e
     \<Longrightarrow> run_validators fs k v = (Some e, [k..<k + Suc i])"
proof (induction fs arbitrary: i k)
  case Nil
  then show ?case by simp
next
  case (Cons f fs)
  show ?case
  proof (cases i)
    case 0
    with Cons.prems show ?thesis by simp
  next
    case (Suc i')
    from Cons.prems Suc have head: "f v = None" by auto
    from Cons.prems Suc have "i' < length fs" "\<forall>j<i'. (fs ! j) v = None" "(fs ! i') v = Some e"
      by auto
    from Cons.IH[OF this, of "Suc k"]
    have "run_validators fs (Suc k) v = (Some e, [Suc k..<Suc k + Suc i'])" .
    with head show ?thesis
      unfolding Suc upt_shift[of k "Suc i'"] by simp
  qed
qed

lemma run_validators_all_pass:
  "\<forall>f\<in>set fs. f v = None \<Longrightarrow> run_validators fs k v = (None, [k..<k + length fs])"
proof (induction fs arbitrary: k)
  case Nil
  then show ?case by simp
next
  case (Cons f fs)
  then have "run_validators fs (Suc k) v = (None, [Suc k..<Suc k + length fs])" by simp
  with Cons.prems show ?case
    using upt_shift[of k "length fs"] by simp
qed

lemma validators_foldl_Custom:
  "validators (foldl Schema_Custom s fs) = validators s @ fs"
  by (induction fs arbitrary: s) (simp_all add: Schema_Custom_def)

lemma builders_attach_one:
  "attaches_one s (Schema_Custom s fn)"
  "attaches_one p (PointerSchema_Custom p pfn)"
  "attaches_one t (StringSchema_Min t n)"
  "attaches_one t (StringSchema_Max t n)"
  "attaches_one t (StringSchema_Length t n)"
  "attaches_one t (StringSchema_Regexp t re)"
  "attaches_one num (NumberSchema_Min num x)"
  "attaches_one num (NumberSchema_Max num x)"
  "attaches_one b (BoolSchema_MustBeTrue b)"
  "attaches_one b (BoolSchema_MustBeFalse b)"
  "attaches_one arr (ArraySchema_Items arr item)"
  "attaches_one arr (ArraySchema_Min arr n)"
  "attaches_one arr (ArraySchema_Max arr n)"
  "attaches_one arr (ArraySchema_Length arr n)"
  "attaches_one arr (ArraySchema_UniqueItems marshal arr)"
  by (simp_all add: attaches_one_def Schema_Custom_def PointerSchema_Custom_def
        StringSchema_Min_def StringSchema_Max_def StringSchema_Length_def
        StringSchema_Regexp_def NumberSchema_Min_def NumberSchema_Max_def
        BoolSchema_MustBeTrue_def BoolSchema_MustBeFalse_def ArraySchema_Items_def
        ArraySchema_Min_def ArraySchema_Max_def ArraySchema_Length_def
        ArraySchema_UniqueItems_def)

text \<open>
  Claim C1. \<open>Custom\<close> appends its function to the list of validators, and so does every
  constraint builder of the typed schemas, so the list is in the order of attachment.
  For every schema (the base one and every schema that embeds it) and every value: when
  the validator at index \<open>i\<close> is the first that returns an error, \<open>Validate\<close> returns that
  error and has called the validators \<open>0, \<dots>, i\<close> in this order and none after it; when
  no validator returns an error, \<open>Validate\<close> returns no error, having called them all in
  order.
\<close>

theorem Validate_first_failure:
  "validators (foldl Schema_Custom s fs) = validators s @ fs \<and>
   (\<forall>i e. i < length (validators s) \<and> (\<forall>j<i. (validators s ! j) value = None)
           \<and> (validators s ! i) value = Some e
      \<longrightarrow> Schema_Validate_run s value = (Some e, [0..<Suc i])
          \<and> Schema_Validate s value = Some e) \<and>
   ((\<forall>f\<in>set (validators s). f value = None)
      \<longrightarrow> Schema_Validate_run s value = (None, [0..<length (validators s)])
          \<and> Schema_Validate s value = None) \<and>
   attaches_one t (StringSchema_Min t n) \<and> attaches_one t (StringSchema_Max t n) \<and>
   attaches_one t (StringSchema_Length t n) \<and> attaches_one t (StringSchema_Regexp t re) \<and>
   attaches_one num (NumberSchema_Min num x) \<and> attaches_one num (NumberSchema_Max num x) \<and>
   attaches_one b (BoolSchema_MustBeTrue b) \<and> attaches_one b (BoolSchema_MustBeFalse b) \<and>
   attaches_one p (PointerSchema_Custom p pfn) \<and>
   attaches_one arr (ArraySchema_Items arr item) \<and> attaches_one arr (ArraySchema_Min arr n) \<and>
   attaches_one arr (ArraySchema_Max arr n) \<and> attaches_one arr (ArraySchema_Length arr n) \<and>
   attaches_one arr (ArraySchema_UniqueItems marshal arr)"
proof -
  have order: "validators (foldl Schema_Custom s fs) = validators s @ fs"
    by (rule validators_foldl_Custom)
  have first: "\<forall>i e. i < length (validators s) \<and> (\<forall>j<i. (validators s ! j) value = None)
           \<and> (validators s ! i) value = Some e
      \<longrightarrow> Schema_Validate_run s value = (Some e, [0..<Suc i])
          \<and> Schema_Validate s value = Some e"
  proof (intro allI impI)
    fix i e
    assume h: "i < length (validators s) \<and> (\<forall>j<i. (validators s ! j) value = None)
           \<and> (validators s ! i) value = Some e"
    then have "run_validators (validators s) 0 value = (Some e, [0..<0 + Suc i])"
      using run_validators_first_failure[of i "validators s" "value" e 0] by blast
    then show "Schema_Validate_run s value = (Some e, [0..<Suc i])
          \<and> Schema_Validate s value = Some e"
      by (simp add: Schema_Validate_run_def Schema_Validate_def)
  qed
  have pass: "(\<forall>f\<in>set (validators s). f value = None)
      \<longrightarrow> Schema_Validate_run s value = (None, [0..<length (validators s)])
          \<and> Schema_Validate s value = None"
  proof
    assume "\<forall>f\<in>set (validators s). f value = None"
    then have "run_validators (validators s) 0 value = (None, [0..<0 + length (validators s)])"
      by (rule run_validators_all_pass)
    then show "Schema_Validate_run s value = (None, [0..<length (validators s)])
          \<and> Schema_Validate s value = None"
      by (simp add: Schema_Validate_run_def Schema_Validate_def)
  qed
  from order first pass show ?thesis
    by (simp only: builders_attach_one simp_thms)
qed

theorem Validate_first_failure_witness:
  "Schema_Validate_run
     (foldl Schema_Custom New
        [\<lambda>v::nat. None,
         \<lambda>v. if v = 0 then Some (ErrorString ''zero'') else None,
         \<lambda>v. Some ErrValueRequired]) 0
   = (Some (ErrorString ''zero''), [0, 1])"
proof -
  let ?fs = "[\<lambda>v::nat. None,
              \<lambda>v. if v = 0 then Some (ErrorString ''zero'') else None,
              \<lambda>v. Some ErrValueRequired]"
  let ?s = "foldl Schema_Custom New ?fs"
  have vs: "validators ?s = ?fs"
    by (simp add: Schema_Custom_def New_def)
  have pre: "1 < length (validators ?s) \<and> (\<forall>j<1. (validators ?s ! j) (0::nat) = None)
           \<and> (validators ?s ! 1) 0 = Some (ErrorString ''zero'')"
    unfolding vs by simp
  note first = Validate_first_failure[of ?s "[]" "0::nat",
      THEN conjunct2, THEN conjunct1, rule_format, of 1 "ErrorString ''zero''"]
  have run: "Schema_Validate_run ?s 0 = (Some (ErrorString ''zero''), [0..<Suc 1])"
    by (rule first[OF pre, THEN conjunct1])
  have "[0..<Suc 1] = [0, 1::nat]" by (simp add: upt_conv_Cons)
  with run show ?thesis by simp
qed

section \<open>Object schemas wrap the error of a field with its name\<close>

lemma fmt_q_plain:
  assumes "\<forall>c\<in>set name. plain_byte c"
  shows "fmt_q name = [CHR 0x22] @ name @ [CHR 0x22]"
proof -
  have "concat (map quote_byte name) = name" using assms
    by (induction name) (auto simp: quote_byte_def plain_byte_def Let_def)
  then show ?thesis by (simp add: fmt_q_def)
qed

lemma Validate_loop_single:
  "distinct order \<Longrightarrow> a \<in> set order \<Longrightarrow> fvs a = Some va \<Longrightarrow> va boxed = Some e
     \<Longrightarrow> \<forall>b vb. b \<noteq> a \<and> fvs b = Some vb \<longrightarrow> vb boxed = None
     \<Longrightarrow> Validate_loop fvs order boxed = Some e"
proof (induction order)
  case Nil
  then show ?case by simp
next
  case (Cons k ks)
  show ?case
  proof (cases "k = a")
    case True
    with Cons.prems show ?thesis by simp
  next
    case False
    with Cons.prems have rest: "Validate_loop fvs ks boxed = Some e"
      using Cons.IH by auto
    from False Cons.prems(5) have "\<And>vk. fvs k = Some vk \<Longrightarrow> vk boxed = None" by blast
    with rest show ?thesis
      by (cases "fvs k") simp_all
  qed
qed

lemma ValidateMap_loop_single:
  "distinct order \<Longrightarrow> a \<in> set order \<Longrightarrow> fvs a = Some va \<Longrightarrow> va (map_index m a) = Some e
     \<Longrightarrow> \<forall>b vb. b \<noteq> a \<and> fvs b = Some vb \<longrightarrow> vb (map_index m b) = None
     \<Longrightarrow> ValidateMap_loop fvs order m = Some e"
proof (induction order)
  case Nil
  then show ?case by simp
next
  case (Cons k ks)
  show ?case
  proof (cases "k = a")
    case True
    with Cons.prems show ?thesis by simp
  next
    case False
    with Cons.prems have rest: "ValidateMap_loop fvs ks m = Some e"
      using Cons.IH by auto
    from False Cons.prems(5) have "\<And>vk. fvs k = Some vk \<Longrightarrow> vk (map_index m k) = None"
      by blast
    with rest show ?thesis
      by (cases "fvs k") simp_all
  qed
qed

lemma registered_Object: "registered (Object T) Map.empty"
  by (simp add: registered_def Object_def)

lemma registered_Field:
  "registered s fns \<Longrightarrow> registered (ObjectSchema_Field s name fn) (fns(name \<mapsto> fn))"
  by (simp add: registered_def ObjectSchema_Field_def)

lemma registered_Map_loop:
  "registered s fns \<Longrightarrow> registered (Map_loop fvs ks s) (fns ++ (fvs |` set ks))"
proof (induction ks arbitrary: s fns)
  case Nil
  then show ?case by simp
next
  case (Cons k ks)
  show ?case
  proof (cases "fvs k")
    case None
    then have "fvs |` set (k # ks) = fvs |` set ks"
      by (auto simp: restrict_map_def fun_eq_iff)
    with None Cons show ?thesis by simp
  next
    case (Some f)
    have "(fns(k \<mapsto> f)) ++ (fvs |` set ks) = fns ++ (fvs |` set (k # ks))"
      using Some by (auto simp: map_add_def restrict_map_def fun_eq_iff split: option.splits)
    from Cons.IH[OF registered_Field[OF Cons.prems, of k f]]
    have "registered (Map_loop fvs ks (ObjectSchema_Field s k f))
            ((fns(k \<mapsto> f)) ++ (fvs |` set ks))" .
    then have "registered (Map_loop fvs ks (ObjectSchema_Field s k f))
            (fns ++ (fvs |` set (k # ks)))"
      by (simp only: \<open>(fns(k \<mapsto> f)) ++ (fvs |` set ks) = fns ++ (fvs |` set (k # ks))\<close>)
    moreover have "Map_loop fvs (k # ks) s = Map_loop fvs ks (ObjectSchema_Field s k f)"
      using Some by simp
    ultimately show ?thesis by (simp only:)
  qed
qed

lemma registered_Map:
  assumes "registered s fns" and "range_order fvs order"
  shows "registered (ObjectSchema_Map order s fvs) (fns ++ fvs)"
proof -
  from assms(2) have "fvs |` set order = fvs"
    by (auto simp: range_order_def restrict_map_def fun_eq_iff)
  with registered_Map_loop[OF assms(1), of fvs order] show ?thesis
    by (simp add: ObjectSchema_Map_def)
qed

lemma Object_Validate_cases:
  "ObjectSchema_Validate order s value =
     (case to_any (obj_T s) value of
        AMap m \<Rightarrow> ValidateMap_loop (fieldValidators s) order m
      | boxed \<Rightarrow> Validate_loop (fieldValidators s) order boxed)"
  by (simp add: ObjectSchema_Validate_def ObjectSchema_ValidateMap_def split: any.splits)

lemma Object_fails_only:
  assumes reg: "registered s fns"
    and ord: "range_order (fieldValidators s) order"
    and fail: "fails_only fns (field_arg (obj_T s) value) a err"
  shows "ObjectSchema_Validate order s value =
           Some (WrapError (''validation failed for field '' @ fmt_q a @ '': '' @ Error err) err)"
proof -
  let ?T = "obj_T s"
  let ?w = "WrapError (''validation failed for field '' @ fmt_q a @ '': '' @ Error err) err"
  from fail obtain fa where fa: "fns a = Some fa" "fa (field_arg ?T value a) = Some err"
    and others: "\<forall>b f. b \<noteq> a \<and> fns b = Some f \<longrightarrow> f (field_arg ?T value b) = None"
    by (auto simp: fails_only_def)
  from reg fa have va: "fieldValidators s a = Some (field_validator ?T a fa)"
    by (simp add: registered_def)
  from ord va have dist: "distinct order" and mem: "a \<in> set order"
    by (auto simp: range_order_def)
  show ?thesis
  proof (cases "\<exists>m. to_any ?T value = AMap m")
    case True
    then obtain m where m: "to_any ?T value = AMap m" by blast
    have arg: "\<And>n. field_arg ?T value n = assert_or_zero ?T (map_index m n)"
      by (simp add: field_arg_def m)
    have 1: "field_validator ?T a fa (map_index m a) = Some ?w"
      using fa by (simp add: field_validator_def arg)
    have 2: "\<forall>b vb. b \<noteq> a \<and> fieldValidators s b = Some vb \<longrightarrow> vb (map_index m b) = None"
    proof (intro allI impI)
      fix b vb assume h: "b \<noteq> a \<and> fieldValidators s b = Some vb"
      with reg obtain f where f: "fns b = Some f" "vb = field_validator ?T b f"
        by (auto simp: registered_def)
      with h others have "f (field_arg ?T value b) = None" by blast
      with f show "vb (map_index m b) = None"
        by (simp add: field_validator_def arg)
    qed
    from ValidateMap_loop_single[OF dist mem va 1 2] m show ?thesis
      by (simp add: Object_Validate_cases)
  next
    case False
    have arg: "\<And>n. field_arg ?T value n = assert_or_zero ?T (to_any ?T value)"
      using False by (cases "to_any ?T value") (simp_all add: field_arg_def)
    have 1: "field_validator ?T a fa (to_any ?T value) = Some ?w"
      using fa by (simp add: field_validator_def arg)
    have 2: "\<forall>b vb. b \<noteq> a \<and> fieldValidators s b = Some vb \<longrightarrow> vb (to_any ?T value) = None"
    proof (intro allI impI)
      fix b vb assume h: "b \<noteq> a \<and> fieldValidators s b = Some vb"
      with reg obtain f where f: "fns b = Some f" "vb = field_validator ?T b f"
        by (auto simp: registered_def)
      with h others have "f (field_arg ?T value b) = None" by blast
      with f show "vb (to_any ?T value) = None"
        by (simp add: field_validator_def arg)
    qed
    from Validate_loop_single[OF dist mem va 1 2] False show ?thesis
      by (cases "to_any ?T value") (simp_all add: Object_Validate_cases)
  qed
qed
text \<open>
  Claim C2. Take an object schema whose field validators were registered with \<open>Field\<close> or
  \<open>Map\<close>, any order in which \<open>range\<close> visits them, and a value for which the function
  registered for one field returns an error while those of all other fields return none.
  Then \<open>Validate\<close> returns the error \<open>validation failed for field "name": inner\<close> that wraps
  the inner error, on the struct path and on the map path alike (the name is printed
  with \<open>%q\<close>: between quotes, as it is when it has only plain bytes). When the failing
  field's function validates a sub-value with another object schema, which in turn has
  exactly one failing field, the result wraps twice: the message names the outer field,
  then the inner field, then gives the innermost message.
\<close>

theorem Object_field_error_wrapping:
  "(registered s fns \<and> range_order (fieldValidators s) order
      \<and> fails_only fns (field_arg (obj_T s) x) a err
    \<longrightarrow> ObjectSchema_Validate order s x =
          Some (WrapError (''validation failed for field '' @ fmt_q a @ '': '' @ Error err) err)) \<and>
   (registered outer fns_o \<and> range_order (fieldValidators outer) order_o
      \<and> registered inner fns_i \<and> range_order (fieldValidators inner) order_i
      \<and> fns_o b = Some (ValidateField getter (ObjectSchema_Validate order_i inner))
      \<and> (\<forall>other fn. other \<noteq> b \<and> fns_o other = Some fn
            \<longrightarrow> fn (field_arg (obj_T outer) v other) = None)
      \<and> fails_only fns_i (field_arg (obj_T inner) (getter (field_arg (obj_T outer) v b))) c err
    \<longrightarrow> ObjectSchema_Validate order_o outer v =
          Some (WrapError
                  (''validation failed for field '' @ fmt_q b @ '': ''
                   @ ''validation failed for field '' @ fmt_q c @ '': '' @ Error err)
                  (WrapError (''validation failed for field '' @ fmt_q c @ '': '' @ Error err)
                     err))) \<and>
   registered (Object T) Map.empty \<and>
   (registered s fns \<longrightarrow> registered (ObjectSchema_Field s name fn) (fns(name \<mapsto> fn))) \<and>
   (registered s fns \<and> range_order fvs order' \<longrightarrow>
      registered (ObjectSchema_Map order' s fvs) (fns ++ fvs)) \<and>
   ((\<forall>ch\<in>set a. plain_byte ch) \<longrightarrow> fmt_q a = [CHR 0x22] @ a @ [CHR 0x22])"
proof (intro conjI impI)
  assume "registered s fns \<and> range_order (fieldValidators s) order
      \<and> fails_only fns (field_arg (obj_T s) x) a err"
  then have "registered s fns" "range_order (fieldValidators s) order"
      "fails_only fns (field_arg (obj_T s) x) a err"
    by blast+
  then show "ObjectSchema_Validate order s x =
          Some (WrapError (''validation failed for field '' @ fmt_q a @ '': '' @ Error err) err)"
    by (rule Object_fails_only)
next
  let ?inner_err = "WrapError (''validation failed for field '' @ fmt_q c @ '': '' @ Error err) err"
  assume h: "registered outer fns_o \<and> range_order (fieldValidators outer) order_o
      \<and> registered inner fns_i \<and> range_order (fieldValidators inner) order_i
      \<and> fns_o b = Some (ValidateField getter (ObjectSchema_Validate order_i inner))
      \<and> (\<forall>other fn. other \<noteq> b \<and> fns_o other = Some fn
            \<longrightarrow> fn (field_arg (obj_T outer) v other) = None)
      \<and> fails_only fns_i (field_arg (obj_T inner) (getter (field_arg (obj_T outer) v b))) c err"
  then have ro: "registered outer fns_o" and oo: "range_order (fieldValidators outer) order_o"
    and ri: "registered inner fns_i" and oi: "range_order (fieldValidators inner) order_i"
    and fb: "fns_o b = Some (ValidateField getter (ObjectSchema_Validate order_i inner))"
    and others: "\<forall>other fn. other \<noteq> b \<and> fns_o other = Some fn
            \<longrightarrow> fn (field_arg (obj_T outer) v other) = None"
    and fi: "fails_only fns_i (field_arg (obj_T inner) (getter (field_arg (obj_T outer) v b))) c err"
    by blast+
  have "ObjectSchema_Validate order_i inner (getter (field_arg (obj_T outer) v b))
               = Some ?inner_err"
    by (rule Object_fails_only[OF ri oi fi])
  with fb others have fo: "fails_only fns_o (field_arg (obj_T outer) v) b ?inner_err"
    by (simp add: fails_only_def ValidateField_def)
  have "ObjectSchema_Validate order_o outer v =
      Some (WrapError (''validation failed for field '' @ fmt_q b @ '': '' @ Error ?inner_err)
              ?inner_err)"
    by (rule Object_fails_only[OF ro oo fo])
  then show "ObjectSchema_Validate order_o outer v =
          Some (WrapError
                  (''validation failed for field '' @ fmt_q b @ '': ''
                   @ ''validation failed for field '' @ fmt_q c @ '': '' @ Error err)
                  ?inner_err)"
    by simp
next
  show "registered (Object T) Map.empty" by (rule registered_Object)
next
  assume "registered s fns"
  then show "registered (ObjectSchema_Field s name fn) (fns(name \<mapsto> fn))"
    by (rule registered_Field)
next
  assume "registered s fns \<and> range_order fvs order'"
  then have "registered s fns" "range_order fvs order'" by blast+
  then show "registered (ObjectSchema_Map order' s fvs) (fns ++ fvs)"
    by (rule registered_Map)
next
  assume "\<forall>ch\<in>set a. plain_byte ch"
  then show "fmt_q a = [CHR 0x22] @ a @ [CHR 0x22]" by (rule fmt_q_plain)
qed
lemma registered_dom: "registered s fns \<Longrightarrow> dom (fieldValidators s) = dom fns"
  by (auto simp: registered_def dom_def)

lemma fmt_d_5: "fmt_d 5 = ''5''"
  by (simp add: fmt_d_def dec_nat.simps)

lemma Max5_quoquo:
  "StringSchema_Validate (StringSchema_Max String 5) ''quoquo''
     = Some (ErrorString ''length must be at most 5'')"
  by (simp add: StringSchema_Validate_def StringSchema_Validate_run_def StringSchema_Max_def
        String_def Schema_Validate_run_def fmt_d_5)

lemma Max5_bar:
  "StringSchema_Validate (StringSchema_Max String 5) ''bar'' = None"
  by (simp add: StringSchema_Validate_def StringSchema_Validate_run_def StringSchema_Max_def
        String_def Schema_Validate_run_def)

theorem Object_field_error_wrapping_witness:
  "ObjectSchema_Validate [''baz'', ''bar''] foo_schema (Foo ''bar'' (Baz ''quoquo'')) =
     Some (WrapError
             (''validation failed for field '' @ [CHR 0x22] @ ''baz'' @ [CHR 0x22] @ '': ''
              @ ''validation failed for field '' @ [CHR 0x22] @ ''quo'' @ [CHR 0x22] @ '': ''
              @ ''length must be at most 5'')
             (WrapError
                (''validation failed for field '' @ [CHR 0x22] @ ''quo'' @ [CHR 0x22] @ '': ''
                 @ ''length must be at most 5'')
                (ErrorString ''length must be at most 5'')))
   \<and> ObjectSchema_Validate [''quo''] baz_schema (Baz ''quoquo'') =
     Some (WrapError
             (''validation failed for field '' @ [CHR 0x22] @ ''quo'' @ [CHR 0x22] @ '': ''
              @ ''length must be at most 5'')
             (ErrorString ''length must be at most 5''))"
proof -
  let ?v = "Foo ''bar'' (Baz ''quoquo'')"
  let ?e = "ErrorString ''length must be at most 5''"
  have ord_q: "range_order baz_fields [''quo'']"
    by (simp add: range_order_def baz_fields_def)
  have ord_f: "range_order foo_fields [''bar'', ''baz'']"
    by (auto simp: range_order_def foo_fields_def)
  note thm_Object = Object_field_error_wrapping[THEN conjunct2, THEN conjunct2, THEN conjunct1]
  note thm_Map = Object_field_error_wrapping[THEN conjunct2, THEN conjunct2, THEN conjunct2,
      THEN conjunct2, THEN conjunct1, THEN mp]
  note thm_plain = Object_field_error_wrapping[THEN conjunct2, THEN conjunct2, THEN conjunct2,
      THEN conjunct2, THEN conjunct2, THEN mp]
  have "registered (ObjectSchema_Map [''quo''] (Object T_Baz) baz_fields) (Map.empty ++ baz_fields)"
    by (rule thm_Map) (intro conjI thm_Object ord_q)
  then have reg_i: "registered baz_schema baz_fields"
    by (simp add: baz_schema_def)
  have "registered (ObjectSchema_Map [''bar'', ''baz''] (Object T_Foo) foo_fields)
          (Map.empty ++ foo_fields)"
    by (rule thm_Map) (intro conjI thm_Object ord_f)
  then have reg_o: "registered foo_schema foo_fields"
    by (simp add: foo_schema_def)
  have ord_i: "range_order (fieldValidators baz_schema) [''quo'']"
    using registered_dom[OF reg_i] by (simp add: range_order_def baz_fields_def)
  have ord_o: "range_order (fieldValidators foo_schema) [''baz'', ''bar'']"
    using registered_dom[OF reg_o] by (auto simp: range_order_def foo_fields_def)
  have T_o: "obj_T foo_schema = T_Foo"
    by (simp add: foo_schema_def ObjectSchema_Map_def ObjectSchema_Field_def Object_def
          foo_fields_def)
  have T_i: "obj_T baz_schema = T_Baz"
    by (simp add: baz_schema_def ObjectSchema_Map_def ObjectSchema_Field_def Object_def
          baz_fields_def)
  have arg_o: "\<And>n. field_arg T_Foo ?v n = ?v"
    by (simp add: field_arg_def T_Foo_def assert_or_zero_def type_assert_def)
  have arg_i: "\<And>n. field_arg T_Baz (Baz ''quoquo'') n = Baz ''quoquo''"
    by (simp add: field_arg_def T_Baz_def assert_or_zero_def type_assert_def)
  have fails_i: "fails_only baz_fields (field_arg (obj_T baz_schema)
                   (Foo_Baz (field_arg (obj_T foo_schema) ?v ''baz''))) ''quo'' ?e"
    by (simp add: fails_only_def T_o T_i arg_o arg_i baz_fields_def Max5_quoquo)
  have fails_i': "fails_only baz_fields (field_arg (obj_T baz_schema) (Baz ''quoquo'')) ''quo'' ?e"
    by (simp add: fails_only_def T_i arg_i baz_fields_def Max5_quoquo)
  have fb: "foo_fields ''baz'' =
              Some (ValidateField Foo_Baz (ObjectSchema_Validate [''quo''] baz_schema))"
    by (simp add: foo_fields_def)
  have others: "\<forall>other fn. other \<noteq> ''baz'' \<and> foo_fields other = Some fn
                  \<longrightarrow> fn (field_arg (obj_T foo_schema) ?v other) = None"
    by (simp add: foo_fields_def T_o arg_o Max5_bar)
  have q_baz: "fmt_q ''baz'' = [CHR 0x22] @ ''baz'' @ [CHR 0x22]"
    by (rule thm_plain) (simp add: plain_byte_def)
  have q_quo: "fmt_q ''quo'' = [CHR 0x22] @ ''quo'' @ [CHR 0x22]"
    by (rule thm_plain) (simp add: plain_byte_def)
  note nested = Object_field_error_wrapping[THEN conjunct2, THEN conjunct1, THEN mp]
  have two: "ObjectSchema_Validate [''baz'', ''bar''] foo_schema ?v =
          Some (WrapError
                  (''validation failed for field '' @ fmt_q ''baz'' @ '': ''
                   @ ''validation failed for field '' @ fmt_q ''quo'' @ '': '' @ Error ?e)
                  (WrapError (''validation failed for field '' @ fmt_q ''quo'' @ '': '' @ Error ?e)
                     ?e))"
  proof (rule nested)
    from reg_o ord_o reg_i ord_i fb others fails_i
    show "registered foo_schema foo_fields
      \<and> range_order (fieldValidators foo_schema) [''baz'', ''bar'']
      \<and> registered baz_schema baz_fields \<and> range_order (fieldValidators baz_schema) [''quo'']
      \<and> foo_fields ''baz'' =
            Some (ValidateField Foo_Baz (ObjectSchema_Validate [''quo''] baz_schema))
      \<and> (\<forall>other fn. other \<noteq> ''baz'' \<and> foo_fields other = Some fn
            \<longrightarrow> fn (field_arg (obj_T foo_schema) ?v other) = None)
      \<and> fails_only baz_fields (field_arg (obj_T baz_schema)
                   (Foo_Baz (field_arg (obj_T foo_schema) ?v ''baz''))) ''quo'' ?e"
      by (intro conjI)
  qed
  note single = Object_field_error_wrapping[THEN conjunct1, THEN mp]
  have one: "ObjectSchema_Validate [''quo''] baz_schema (Baz ''quoquo'') =
          Some (WrapError (''validation failed for field '' @ fmt_q ''quo'' @ '': '' @ Error ?e) ?e)"
  proof (rule single)
    from reg_i ord_i fails_i'
    show "registered baz_schema baz_fields \<and> range_order (fieldValidators baz_schema) [''quo'']
      \<and> fails_only baz_fields (field_arg (obj_T baz_schema) (Baz ''quoquo'')) ''quo'' ?e"
      by (intro conjI)
  qed
  from two one show ?thesis
    unfolding q_baz q_quo by simp
qed

section \<open>\<open>Required\<close> on strings and numbers is checked before the validators\<close>

lemma run_validators_error_source:
  "run_validators fs k v = (Some e, calls) \<Longrightarrow> \<exists>p\<in>set fs. p v = Some e"
proof (induction fs arbitrary: k calls)
  case Nil
  then show ?case by simp
next
  case (Cons f fs)
  show ?case
  proof (cases "f v")
    case None
    with Cons.prems obtain calls' where "run_validators fs (Suc k) v = (Some e, calls')"
      by (auto split: prod.splits)
    with Cons.IH show ?thesis by auto
  next
    case (Some e')
    with Cons.prems show ?thesis by auto
  qed
qed

lemma Schema_Validate_error_source:
  "Schema_Validate s v = Some e \<Longrightarrow> \<exists>p\<in>set (validators s). p v = Some e"
  using run_validators_error_source[of "validators s" 0 v e "snd (Schema_Validate_run s v)"]
  by (simp add: Schema_Validate_def Schema_Validate_run_def prod_eq_iff)

text \<open>
  Claim C3 fails where it says that \<open>Validate\<close> on a non-empty string does not return
  the sentinel: \<open>ErrValueRequired\<close> is exported, and a validator attached with \<open>Custom\<close>
  may return it. With such a validator on \<open>String().Required()\<close>, \<open>Validate("x")\<close> skips
  the check of the flag, runs the validator and returns the sentinel.
\<close>

theorem StringSchema_Required_sentinel_counterexample:
  "str_required (Schema_Custom (StringSchema_Required String) (\<lambda>v. Some ErrValueRequired)) \<and>
   ''x'' \<noteq> [] \<and>
   StringSchema_Validate
     (Schema_Custom (StringSchema_Required String) (\<lambda>v. Some ErrValueRequired)) ''x''
     = Some ErrValueRequired"
  by (simp add: StringSchema_Validate_def StringSchema_Validate_run_def Schema_Custom_def
        StringSchema_Required_def String_def Schema_Validate_run_def)

text \<open>
  Claim C3, amended. \<open>Required\<close> sets the flag and leaves the validators alone, and the
  builders keep the flag. For a string schema with the flag set, \<open>Validate\<close> on the empty
  string returns \<open>ErrValueRequired\<close> and calls no validator. On a non-empty string the
  check of the flag returns nothing: \<open>Validate\<close> is the run of the attached validators, in
  order and up to the first error (or through all of them, with no error), so it returns
  the sentinel only if one of the attached validators itself returned it.
\<close>

theorem StringSchema_Required_first:
  "str_required (StringSchema_Required s) \<and>
   validators (StringSchema_Required s) = validators s \<and>
   str_required (StringSchema_Min t n) = str_required t \<and>
   str_required (StringSchema_Max t n) = str_required t \<and>
   str_required (StringSchema_Length t n) = str_required t \<and>
   str_required (StringSchema_Regexp t re) = str_required t \<and>
   str_required (Schema_Custom t fn) = str_required t \<and>
   (str_required t \<longrightarrow>
      StringSchema_Validate_run t [] = (Some ErrValueRequired, []) \<and>
      StringSchema_Validate t [] = Some ErrValueRequired \<and>
      (\<forall>v. v \<noteq> [] \<longrightarrow>
         StringSchema_Validate_run t v = Schema_Validate_run t v \<and>
         StringSchema_Validate t v = Schema_Validate t v \<and>
         (\<forall>i e. i < length (validators t) \<and> (\<forall>j<i. (validators t ! j) v = None)
                 \<and> (validators t ! i) v = Some e
            \<longrightarrow> StringSchema_Validate_run t v = (Some e, [0..<Suc i])) \<and>
         ((\<forall>p\<in>set (validators t). p v = None)
            \<longrightarrow> StringSchema_Validate_run t v = (None, [0..<length (validators t)])) \<and>
         ((\<forall>p\<in>set (validators t). p v \<noteq> Some ErrValueRequired)
            \<longrightarrow> StringSchema_Validate t v \<noteq> Some ErrValueRequired)))"
proof -
  have flags: "str_required (StringSchema_Required s) \<and>
   validators (StringSchema_Required s) = validators s \<and>
   str_required (StringSchema_Min t n) = str_required t \<and>
   str_required (StringSchema_Max t n) = str_required t \<and>
   str_required (StringSchema_Length t n) = str_required t \<and>
   str_required (StringSchema_Regexp t re) = str_required t \<and>
   str_required (Schema_Custom t fn) = str_required t"
    by (simp add: StringSchema_Required_def StringSchema_Min_def StringSchema_Max_def
          StringSchema_Length_def StringSchema_Regexp_def Schema_Custom_def)
  have empty: "str_required t \<Longrightarrow> StringSchema_Validate_run t [] = (Some ErrValueRequired, [])"
    by (simp add: StringSchema_Validate_run_def)
  have run: "\<And>v. v \<noteq> [] \<Longrightarrow> StringSchema_Validate_run t v = Schema_Validate_run t v"
    by (simp add: StringSchema_Validate_run_def)
  have first: "\<And>v i e. v \<noteq> [] \<Longrightarrow> i < length (validators t) \<and> (\<forall>j<i. (validators t ! j) v = None)
                 \<and> (validators t ! i) v = Some e
            \<Longrightarrow> StringSchema_Validate_run t v = (Some e, [0..<Suc i])"
    using run_validators_first_failure[of _ "validators t" _ _ 0]
    by (simp add: run Schema_Validate_run_def)
  have pass: "\<And>v. v \<noteq> [] \<Longrightarrow> \<forall>p\<in>set (validators t). p v = None
            \<Longrightarrow> StringSchema_Validate_run t v = (None, [0..<length (validators t)])"
    using run_validators_all_pass[of "validators t" _ 0]
    by (simp add: run Schema_Validate_run_def)
  have source: "\<And>v. v \<noteq> [] \<Longrightarrow> \<forall>p\<in>set (validators t). p v \<noteq> Some ErrValueRequired
            \<Longrightarrow> StringSchema_Validate t v \<noteq> Some ErrValueRequired"
  proof
    fix v assume "v \<noteq> []" and no: "\<forall>p\<in>set (validators t). p v \<noteq> Some ErrValueRequired"
      and "StringSchema_Validate t v = Some ErrValueRequired"
    then have "Schema_Validate t v = Some ErrValueRequired"
      by (simp add: StringSchema_Validate_def Schema_Validate_def run)
    from Schema_Validate_error_source[OF this] no show False by blast
  qed
  from flags empty run first pass source show ?thesis
    by (simp add: StringSchema_Validate_def Schema_Validate_def)
qed

theorem StringSchema_Required_first_witness:
  "StringSchema_Validate_run (StringSchema_Min (StringSchema_Required String) 3) []
     = (Some ErrValueRequired, []) \<and>
   StringSchema_Validate_run (StringSchema_Min (StringSchema_Required String) 3) ''hi''
     = (Some (ErrorString ''length must be at least 3''), [0]) \<and>
   StringSchema_Validate (StringSchema_Min (StringSchema_Required String) 3) ''hello''
     \<noteq> Some ErrValueRequired"
proof -
  let ?t = "StringSchema_Min (StringSchema_Required String) 3"
  note inst = StringSchema_Required_first[of String ?t 3]
  have req: "str_required ?t"
    using StringSchema_Required_first[of String "StringSchema_Required String" 3]
    by simp
  have vs: "validators ?t = [\<lambda>v. if int (length v) < 3
           then Some (ErrorString (''length must be at least '' @ fmt_d 3)) else None]"
    by (simp add: StringSchema_Min_def StringSchema_Required_def String_def)
  have d3: "fmt_d 3 = ''3''" by (simp add: fmt_d_def dec_nat.simps)
  from inst req have all: "StringSchema_Validate_run ?t [] = (Some ErrValueRequired, []) \<and>
      (\<forall>v. v \<noteq> [] \<longrightarrow>
         StringSchema_Validate_run ?t v = Schema_Validate_run ?t v \<and>
         StringSchema_Validate ?t v = Schema_Validate ?t v \<and>
         (\<forall>i e. i < length (validators ?t) \<and> (\<forall>j<i. (validators ?t ! j) v = None)
                 \<and> (validators ?t ! i) v = Some e
            \<longrightarrow> StringSchema_Validate_run ?t v = (Some e, [0..<Suc i])) \<and>
         ((\<forall>p\<in>set (validators ?t). p v = None)
            \<longrightarrow> StringSchema_Validate_run ?t v = (None, [0..<length (validators ?t)])) \<and>
         ((\<forall>p\<in>set (validators ?t). p v \<noteq> Some ErrValueRequired)
            \<longrightarrow> StringSchema_Validate ?t v \<noteq> Some ErrValueRequired))"
    by blast
  then have 1: "StringSchema_Validate_run ?t [] = (Some ErrValueRequired, [])" by blast
  have "0 < length (validators ?t) \<and> (\<forall>j<0. (validators ?t ! j) ''hi'' = None)
                 \<and> (validators ?t ! 0) ''hi'' = Some (ErrorString ''length must be at least 3'')"
    unfolding vs by (simp add: d3)
  with all have 2: "StringSchema_Validate_run ?t ''hi''
     = (Some (ErrorString ''length must be at least 3''), [0..<Suc 0])"
    by (metis list.distinct(1))
  have "\<forall>p\<in>set (validators ?t). p ''hello'' \<noteq> Some ErrValueRequired"
    unfolding vs by simp
  with all have 3: "StringSchema_Validate ?t ''hello'' \<noteq> Some ErrValueRequired"
    by (metis list.distinct(1))
  from 1 2 3 show ?thesis by simp
qed

text \<open>
  Claim C4 fails in the same way: with a validator that returns the exported sentinel
  attached to \<open>Number[int]().Required()\<close>, \<open>Validate(5)\<close> skips the check of the flag, runs
  the validator and returns \<open>ErrValueRequired\<close> on a value that is not zero.
\<close>

theorem NumberSchema_Required_sentinel_counterexample:
  "num_required (Schema_Custom (NumberSchema_Required (Number fmt_d))
                   (\<lambda>v. Some ErrValueRequired)) \<and>
   (5::int) \<noteq> 0 \<and>
   NumberSchema_Validate
     (Schema_Custom (NumberSchema_Required (Number fmt_d)) (\<lambda>v. Some ErrValueRequired)) 5
     = Some ErrValueRequired"
  by (simp add: NumberSchema_Validate_def NumberSchema_Validate_run_def Schema_Custom_def
        NumberSchema_Required_def Number_def Schema_Validate_run_def)

text \<open>
  Claim C4, amended. For a number schema, at every numeric type: with the flag set,
  \<open>Validate\<close> on the zero value returns \<open>ErrValueRequired\<close> and calls no validator; on a
  value other than zero the check of the flag returns nothing, and \<open>Validate\<close> is the run
  of the attached validators, in order and up to the first error, so it returns the
  sentinel only if one of the attached validators itself returned it.
\<close>

theorem NumberSchema_Required_first:
  "num_required (NumberSchema_Required s) \<and>
   validators (NumberSchema_Required s) = validators s \<and>
   num_required (NumberSchema_Min t a) = num_required t \<and>
   num_required (NumberSchema_Max t a) = num_required t \<and>
   num_required (Schema_Custom t fn) = num_required t \<and>
   (num_required t \<longrightarrow>
      NumberSchema_Validate_run t 0 = (Some ErrValueRequired, []) \<and>
      NumberSchema_Validate t 0 = Some ErrValueRequired \<and>
      (\<forall>v. v \<noteq> 0 \<longrightarrow>
         NumberSchema_Validate_run t v = Schema_Validate_run t v \<and>
         NumberSchema_Validate t v = Schema_Validate t v \<and>
         (\<forall>i e. i < length (validators t) \<and> (\<forall>j<i. (validators t ! j) v = None)
                 \<and> (validators t ! i) v = Some e
            \<longrightarrow> NumberSchema_Validate_run t v = (Some e, [0..<Suc i])) \<and>
         ((\<forall>p\<in>set (validators t). p v = None)
            \<longrightarrow> NumberSchema_Validate_run t v = (None, [0..<length (validators t)])) \<and>
         ((\<forall>p\<in>set (validators t). p v \<noteq> Some ErrValueRequired)
            \<longrightarrow> NumberSchema_Validate t v \<noteq> Some ErrValueRequired)))"
proof -
  have flags: "num_required (NumberSchema_Required s) \<and>
   validators (NumberSchema_Required s) = validators s \<and>
   num_required (NumberSchema_Min t a) = num_required t \<and>
   num_required (NumberSchema_Max t a) = num_required t \<and>
   num_required (Schema_Custom t fn) = num_required t"
    by (simp add: NumberSchema_Required_def NumberSchema_Min_def NumberSchema_Max_def
          Schema_Custom_def)
  have zero: "num_required t \<Longrightarrow> NumberSchema_Validate_run t 0 = (Some ErrValueRequired, [])"
    by (simp add: NumberSchema_Validate_run_def)
  have run: "\<And>v. v \<noteq> 0 \<Longrightarrow> NumberSchema_Validate_run t v = Schema_Validate_run t v"
    by (simp add: NumberSchema_Validate_run_def)
  have first: "\<And>v i e. v \<noteq> 0 \<Longrightarrow> i < length (validators t) \<and> (\<forall>j<i. (validators t ! j) v = None)
                 \<and> (validators t ! i) v = Some e
            \<Longrightarrow> NumberSchema_Validate_run t v = (Some e, [0..<Suc i])"
    using run_validators_first_failure[of _ "validators t" _ _ 0]
    by (simp add: run Schema_Validate_run_def)
  have pass: "\<And>v. v \<noteq> 0 \<Longrightarrow> \<forall>p\<in>set (validators t). p v = None
            \<Longrightarrow> NumberSchema_Validate_run t v = (None, [0..<length (validators t)])"
    using run_validators_all_pass[of "validators t" _ 0]
    by (simp add: run Schema_Validate_run_def)
  have source: "\<And>v. v \<noteq> 0 \<Longrightarrow> \<forall>p\<in>set (validators t). p v \<noteq> Some ErrValueRequired
            \<Longrightarrow> NumberSchema_Validate t v \<noteq> Some ErrValueRequired"
  proof
    fix v assume "v \<noteq> 0" and no: "\<forall>p\<in>set (validators t). p v \<noteq> Some ErrValueRequired"
      and "NumberSchema_Validate t v = Some ErrValueRequired"
    then have "Schema_Validate t v = Some ErrValueRequired"
      by (simp add: NumberSchema_Validate_def Schema_Validate_def run)
    from Schema_Validate_error_source[OF this] no show False by blast
  qed
  from flags zero run first pass source show ?thesis
    by (simp add: NumberSchema_Validate_def Schema_Validate_def)
qed

theorem NumberSchema_Required_first_witness:
  "NumberSchema_Validate_run (NumberSchema_Min (NumberSchema_Required (Number fmt_d)) 18) 0
     = (Some ErrValueRequired, []) \<and>
   NumberSchema_Validate_run (NumberSchema_Min (NumberSchema_Required (Number fmt_d)) 18) 15
     = (Some (ErrorString ''value must be at least 18''), [0]) \<and>
   NumberSchema_Validate (NumberSchema_Min (NumberSchema_Required (Number fmt_d)) 18) 25
     \<noteq> Some ErrValueRequired"
proof -
  let ?t = "NumberSchema_Min (NumberSchema_Required (Number fmt_d)) (18::int)"
  note inst = NumberSchema_Required_first[of "Number fmt_d" ?t 18]
  have req: "num_required ?t"
    using NumberSchema_Required_first[of "Number fmt_d" "NumberSchema_Required (Number fmt_d)"
        "18::int"]
    by simp
  have d18: "fmt_d 18 = ''18''" by (simp add: fmt_d_def dec_nat.simps)
  have vs: "validators ?t = [\<lambda>v. if v < 18
           then Some (ErrorString (''value must be at least '' @ fmt_d 18)) else None]"
    by (simp add: NumberSchema_Min_def NumberSchema_Required_def Number_def cong: if_cong)
  from inst req have all: "NumberSchema_Validate_run ?t 0 = (Some ErrValueRequired, []) \<and>
      (\<forall>v. v \<noteq> 0 \<longrightarrow>
         NumberSchema_Validate_run ?t v = Schema_Validate_run ?t v \<and>
         NumberSchema_Validate ?t v = Schema_Validate ?t v \<and>
         (\<forall>i e. i < length (validators ?t) \<and> (\<forall>j<i. (validators ?t ! j) v = None)
                 \<and> (validators ?t ! i) v = Some e
            \<longrightarrow> NumberSchema_Validate_run ?t v = (Some e, [0..<Suc i])) \<and>
         ((\<forall>p\<in>set (validators ?t). p v = None)
            \<longrightarrow> NumberSchema_Validate_run ?t v = (None, [0..<length (validators ?t)])) \<and>
         ((\<forall>p\<in>set (validators ?t). p v \<noteq> Some ErrValueRequired)
            \<longrightarrow> NumberSchema_Validate ?t v \<noteq> Some ErrValueRequired))"
    by blast
  then have 1: "NumberSchema_Validate_run ?t 0 = (Some ErrValueRequired, [])" by blast
  have ne15: "(15::int) \<noteq> 0" and ne25: "(25::int) \<noteq> 0" by simp_all
  have "0 < length (validators ?t) \<and> (\<forall>j<0. (validators ?t ! j) 15 = None)
                 \<and> (validators ?t ! 0) 15 = Some (ErrorString ''value must be at least 18'')"
    unfolding vs by (simp add: d18)
  with all ne15 have 2: "NumberSchema_Validate_run ?t 15
     = (Some (ErrorString ''value must be at least 18''), [0..<Suc 0])"
    by blast
  have "\<forall>p\<in>set (validators ?t). p 25 \<noteq> Some ErrValueRequired"
    unfolding vs by simp
  with all ne25 have 3: "NumberSchema_Validate ?t 25 \<noteq> Some ErrValueRequired"
    by blast
  from 1 2 3 show ?thesis by simp
qed

section \<open>A number schema with a minimum and a maximum\<close>

lemma NumberSchema_Min_Max_eval:
  "NumberSchema_Validate (NumberSchema_Max (NumberSchema_Min (Number fmt) a) b) v =
     (if v < a then Some (ErrorString (''value must be at least '' @ fmt a))
      else if v > b then Some (ErrorString (''value must be at most '' @ fmt b))
      else None)"
  by (simp add: NumberSchema_Validate_def NumberSchema_Validate_run_def NumberSchema_Max_def
        NumberSchema_Min_def Number_def Schema_Validate_run_def split: prod.splits)

lemma NumberSchema_Max_Min_eval:
  "NumberSchema_Validate (NumberSchema_Min (NumberSchema_Max (Number fmt) b) a) v =
     (if v > b then Some (ErrorString (''value must be at most '' @ fmt b))
      else if v < a then Some (ErrorString (''value must be at least '' @ fmt a))
      else None)"
  by (simp add: NumberSchema_Validate_def NumberSchema_Validate_run_def NumberSchema_Max_def
        NumberSchema_Min_def Number_def Schema_Validate_run_def split: prod.splits)

lemma float64_le_iff: "x \<noteq> NaN \<Longrightarrow> y \<noteq> NaN \<Longrightarrow> (x \<le> y) = (\<not> y < x)" for x y :: float64
  by (cases x; cases y) (auto simp: less_eq_float64_def less_float64_def)

lemma float64_le_not_NaN: "x \<le> y \<Longrightarrow> x \<noteq> NaN \<and> y \<noteq> NaN" for x y :: float64
  by (cases x; cases y) (auto simp: less_eq_float64_def less_float64_def)

lemma float64_less_le_trans: "x < y \<Longrightarrow> y \<le> z \<Longrightarrow> x < z" for x y z :: float64
  by (cases x; cases y; cases z) (auto simp: less_eq_float64_def less_float64_def)

lemma float64_le_less_trans: "x \<le> y \<Longrightarrow> y < z \<Longrightarrow> x < z" for x y z :: float64
  by (cases x; cases y; cases z) (auto simp: less_eq_float64_def less_float64_def)

lemma float64_less_asym: "x < y \<Longrightarrow> \<not> y < x" for x y :: float64
  by (cases x; cases y) (auto simp: less_float64_def)

text \<open>
  Claim C5 fails for \<open>float64\<close>: \<open>NaN\<close> is neither below the minimum nor above the
  maximum, so the schema with \<open>Min(0)\<close> and \<open>Max(1)\<close> accepts it, while \<open>0 \<le> NaN \<le> 1\<close> is
  false. (No message is formatted on this input, so the function for \<open>%v\<close> does not
  matter.)
\<close>

theorem NumberSchema_range_NaN_counterexample:
  "(Finite 0 :: float64) \<le> Finite 1 \<and>
   NumberSchema_Validate
     (NumberSchema_Max (NumberSchema_Min (Number (\<lambda>f. [])) (Finite 0)) (Finite 1)) NaN = None \<and>
   \<not> (Finite 0 \<le> NaN \<and> NaN \<le> Finite 1)"
  by (simp add: NumberSchema_Min_Max_eval less_eq_float64_def less_float64_def)

text \<open>
  Claim C5, amended. Take the schema built from \<open>Number\<close> with \<open>Min(a)\<close> and \<open>Max(b)\<close>, in
  either order and without \<open>Required\<close>, where \<open>a \<le> b\<close>. At a totally ordered type (every
  integer type): \<open>Validate(v)\<close> returns no error if and only if \<open>a \<le> v \<le> b\<close>; every
  \<open>v\<close> below \<open>a\<close> gets the error naming the minimum and every \<open>v\<close> above \<open>b\<close> the error
  naming the maximum; in particular \<open>a - 1\<close> and \<open>b + 1\<close> do when the subtraction and the
  addition do not wrap (\<open>a - 1 < a\<close>, \<open>b < b + 1\<close>). At \<open>float64\<close> the same holds for every
  value other than \<open>NaN\<close>; the value \<open>NaN\<close> is accepted, whatever the bounds are and in
  whichever order they were attached.
\<close>

theorem NumberSchema_Min_Max_range:
  fixes a b v :: "'a::{linorder,zero,one,plus,minus}" and x y w :: float64
  shows
  "((s = NumberSchema_Max (NumberSchema_Min (Number fmt) a) b
       \<or> s = NumberSchema_Min (NumberSchema_Max (Number fmt) b) a) \<and> a \<le> b
    \<longrightarrow> (NumberSchema_Validate s v = None \<longleftrightarrow> a \<le> v \<and> v \<le> b) \<and>
        (v < a \<longrightarrow> NumberSchema_Validate s v
                      = Some (ErrorString (''value must be at least '' @ fmt a))) \<and>
        (b < v \<longrightarrow> NumberSchema_Validate s v
                      = Some (ErrorString (''value must be at most '' @ fmt b))) \<and>
        (a - 1 < a \<longrightarrow> NumberSchema_Validate s (a - 1)
                      = Some (ErrorString (''value must be at least '' @ fmt a))) \<and>
        (b < b + 1 \<longrightarrow> NumberSchema_Validate s (b + 1)
                      = Some (ErrorString (''value must be at most '' @ fmt b)))) \<and>
   ((t = NumberSchema_Max (NumberSchema_Min (Number fmt') x) y
       \<or> t = NumberSchema_Min (NumberSchema_Max (Number fmt') y) x) \<and> x \<le> y \<and> w \<noteq> NaN
    \<longrightarrow> (NumberSchema_Validate t w = None \<longleftrightarrow> x \<le> w \<and> w \<le> y) \<and>
        (w < x \<longrightarrow> NumberSchema_Validate t w
                      = Some (ErrorString (''value must be at least '' @ fmt' x))) \<and>
        (y < w \<longrightarrow> NumberSchema_Validate t w
                      = Some (ErrorString (''value must be at most '' @ fmt' y)))) \<and>
   NumberSchema_Validate (NumberSchema_Max (NumberSchema_Min (Number fmt') x) y) NaN = None \<and>
   NumberSchema_Validate (NumberSchema_Min (NumberSchema_Max (Number fmt') y) x) NaN = None"
proof (intro conjI impI)
  assume h: "(s = NumberSchema_Max (NumberSchema_Min (Number fmt) a) b
       \<or> s = NumberSchema_Min (NumberSchema_Max (Number fmt) b) a) \<and> a \<le> b"
  then have ab: "a \<le> b" by blast
  have eval: "\<And>u. NumberSchema_Validate s u =
     (if u < a then Some (ErrorString (''value must be at least '' @ fmt a))
      else if u > b then Some (ErrorString (''value must be at most '' @ fmt b))
      else None)"
    using h ab by (auto simp: NumberSchema_Min_Max_eval NumberSchema_Max_Min_eval)
  show "NumberSchema_Validate s v = None \<longleftrightarrow> a \<le> v \<and> v \<le> b"
    by (auto simp: eval)
  show "v < a \<Longrightarrow> NumberSchema_Validate s v
                      = Some (ErrorString (''value must be at least '' @ fmt a))"
    by (simp add: eval)
  show "b < v \<Longrightarrow> NumberSchema_Validate s v
                      = Some (ErrorString (''value must be at most '' @ fmt b))"
    using ab by (auto simp: eval)
  show "a - 1 < a \<Longrightarrow> NumberSchema_Validate s (a - 1)
                      = Some (ErrorString (''value must be at least '' @ fmt a))"
    by (simp add: eval)
  show "b < b + 1 \<Longrightarrow> NumberSchema_Validate s (b + 1)
                      = Some (ErrorString (''value must be at most '' @ fmt b))"
    using ab by (auto simp: eval)
next
  assume h: "(t = NumberSchema_Max (NumberSchema_Min (Number fmt') x) y
       \<or> t = NumberSchema_Min (NumberSchema_Max (Number fmt') y) x) \<and> x \<le> y \<and> w \<noteq> NaN"
  then have xy: "x \<le> y" and w: "w \<noteq> NaN" by blast+
  from float64_le_not_NaN[OF xy] have x: "x \<noteq> NaN" and y: "y \<noteq> NaN" by blast+
  have both: "\<not> (w < x \<and> y < w)"
    using float64_less_le_trans[OF _ xy, of w] float64_less_asym[of w y] by blast
  have eval: "NumberSchema_Validate t w =
     (if w < x then Some (ErrorString (''value must be at least '' @ fmt' x))
      else if w > y then Some (ErrorString (''value must be at most '' @ fmt' y))
      else None)"
    using h both by (auto simp: NumberSchema_Min_Max_eval NumberSchema_Max_Min_eval)
  show "NumberSchema_Validate t w = None \<longleftrightarrow> x \<le> w \<and> w \<le> y"
    using float64_le_iff[OF x w] float64_le_iff[OF w y] by (auto simp: eval)
  show "w < x \<Longrightarrow> NumberSchema_Validate t w
                      = Some (ErrorString (''value must be at least '' @ fmt' x))"
    by (simp add: eval)
  show "y < w \<Longrightarrow> NumberSchema_Validate t w
                      = Some (ErrorString (''value must be at most '' @ fmt' y))"
    using both by (auto simp: eval)
next
  have below: "\<not> NaN < x" and above: "\<not> y < NaN"
    by (cases x; simp add: less_float64_def) (cases y; simp add: less_float64_def)
  show "NumberSchema_Validate (NumberSchema_Max (NumberSchema_Min (Number fmt') x) y) NaN = None"
    using below above by (simp add: NumberSchema_Min_Max_eval)
  show "NumberSchema_Validate (NumberSchema_Min (NumberSchema_Max (Number fmt') y) x) NaN = None"
    using below above by (simp add: NumberSchema_Max_Min_eval)
qed

theorem NumberSchema_Min_Max_range_witness:
  "NumberSchema_Validate (NumberSchema_Max (NumberSchema_Min (Number fmt_d) 18) 120) 25 = None \<and>
   NumberSchema_Validate (NumberSchema_Max (NumberSchema_Min (Number fmt_d) 18) 120) 15
     = Some (ErrorString ''value must be at least 18'') \<and>
   NumberSchema_Validate (NumberSchema_Max (NumberSchema_Min (Number fmt_d) 18) 120) 150
     = Some (ErrorString ''value must be at most 120'') \<and>
   NumberSchema_Validate (NumberSchema_Max (NumberSchema_Min (Number fmt_d) 18) 120) (18 - 1)
     = Some (ErrorString ''value must be at least 18'') \<and>
   NumberSchema_Validate (NumberSchema_Max (NumberSchema_Min (Number fmt_d) 18) 120) (120 + 1)
     = Some (ErrorString ''value must be at most 120'') \<and>
   NumberSchema_Validate
     (NumberSchema_Max (NumberSchema_Min (Number (\<lambda>f. [])) (Finite 0)) (Finite 3))
     (Finite (7 / 4)) = None \<and>
   NumberSchema_Validate
     (NumberSchema_Max (NumberSchema_Min (Number (\<lambda>f. [])) (Finite 0)) (Finite 3)) NaN = None"
proof -
  let ?s = "NumberSchema_Max (NumberSchema_Min (Number fmt_d) (18::int)) 120"
  let ?t = "NumberSchema_Max (NumberSchema_Min (Number (\<lambda>f. [])) (Finite 0)) (Finite 3)"
  have d18: "fmt_d 18 = ''18''" and d120: "fmt_d 120 = ''120''"
    by (simp_all add: fmt_d_def dec_nat.simps)
  note int_part = NumberSchema_Min_Max_range[THEN conjunct1, THEN mp, of ?s fmt_d 18 120]
  have pre: "(?s = NumberSchema_Max (NumberSchema_Min (Number fmt_d) 18) 120
       \<or> ?s = NumberSchema_Min (NumberSchema_Max (Number fmt_d) 120) 18) \<and> (18::int) \<le> 120"
    by simp
  have 1: "NumberSchema_Validate ?s 25 = None"
    using int_part[OF pre, of 25] by simp
  have 2: "NumberSchema_Validate ?s 15 = Some (ErrorString ''value must be at least 18'')"
    using int_part[OF pre, of 15] by (simp add: d18)
  have 3: "NumberSchema_Validate ?s 150 = Some (ErrorString ''value must be at most 120'')"
    using int_part[OF pre, of 150] by (simp add: d120)
  have 4: "NumberSchema_Validate ?s (18 - 1) = Some (ErrorString ''value must be at least 18'')"
    using int_part[OF pre, of 0] by (simp add: d18)
  have 5: "NumberSchema_Validate ?s (120 + 1) = Some (ErrorString ''value must be at most 120'')"
    using int_part[OF pre, of 0] by (simp add: d120)
  note float_part = NumberSchema_Min_Max_range[THEN conjunct2, THEN conjunct1, THEN mp,
      of ?t "\<lambda>f. []" "Finite 0" "Finite 3" "Finite (7 / 4)"]
  have pre': "(?t = NumberSchema_Max (NumberSchema_Min (Number (\<lambda>f. [])) (Finite 0)) (Finite 3)
       \<or> ?t = NumberSchema_Min (NumberSchema_Max (Number (\<lambda>f. [])) (Finite 3)) (Finite 0))
       \<and> Finite 0 \<le> Finite 3 \<and> Finite (7 / 4) \<noteq> NaN"
    by (simp add: less_eq_float64_def)
  have 6: "NumberSchema_Validate ?t (Finite (7 / 4)) = None"
    using float_part[OF pre'] by (simp add: less_eq_float64_def)
  have 7: "NumberSchema_Validate ?t NaN = None"
    by (rule NumberSchema_Min_Max_range[THEN conjunct2, THEN conjunct2, THEN conjunct1])
  from 1 2 3 4 5 6 7 show ?thesis by (intro conjI)
qed

section \<open>An array schema treats the nil sequence as the empty one\<close>

lemma validators_attach_constraint:
  "validators (attach_constraint s c) = validators s @ [constraint_validator c]"
  by (cases c)
     (simp_all add: constraint_validator_def ArraySchema_Min_def ArraySchema_Max_def
        ArraySchema_Length_def ArraySchema_UniqueItems_def ArraySchema_Items_def Array_def)

lemma validators_foldl_attach:
  "validators (foldl attach_constraint s cs) = validators s @ map constraint_validator cs"
  by (induction cs arbitrary: s) (simp_all add: validators_attach_constraint)

lemma validators_build_array:
  "validators (build_array cs) = map constraint_validator cs"
  by (simp add: build_array_def validators_foldl_attach Array_def)

lemma admits_empty_accepts:
  "admits_empty c \<Longrightarrow> constraint_validator c (Some []) = None"
  by (cases c)
     (simp_all add: constraint_validator_def ArraySchema_Min_def ArraySchema_Max_def
        ArraySchema_Length_def ArraySchema_UniqueItems_def ArraySchema_Items_def Array_def
        len_def elems_def)

lemma positive_Min_rejects:
  "0 < n \<Longrightarrow> constraint_validator (CMin n) (Some [])
     = Some (ErrorString (''array length must be at least '' @ fmt_d n))"
  by (simp add: constraint_validator_def ArraySchema_Min_def Array_def len_def)

lemma validators_Min_1:
  "validators (ArraySchema_Min Array 1) = [constraint_validator (CMin 1)]"
  using validators_attach_constraint[of Array "CMin 1"]
  by (simp add: Array_def)

lemma Min_1_rejects:
  "constraint_validator (CMin 1) (Some [])
     = Some (ErrorString ''array length must be at least 1'')"
  using positive_Min_rejects[of 1] by (simp add: fmt_d_def dec_nat.simps)

lemma ArraySchema_Validate_nil:
  "ArraySchema_Validate_run s None = ArraySchema_Validate_run s (Some [])"
  by (simp add: ArraySchema_Validate_run_def Schema_Validate_run_def)

lemma ArraySchema_Validate_empty_run:
  "ArraySchema_Validate_run s (Some []) = run_validators (validators s) 0 (Some [])"
  by (simp add: ArraySchema_Validate_run_def Schema_Validate_run_def)

text \<open>
  Claim C6. For every array schema, whatever its validators are, \<open>Validate\<close> on the nil
  sequence returns what \<open>Validate\<close> on the empty sequence returns (and calls the same
  validators). In particular, for a schema built from the constraint builders: when a
  \<open>Min(n)\<close> with \<open>n > 0\<close> comes after constraints that admit the empty sequence, the nil
  sequence fails with \<open>array length must be at least n\<close> (so \<open>Min(1)\<close> alone does); and
  when every constraint admits the empty sequence, there being no positive length
  floor, the nil sequence passes.
\<close>

theorem ArraySchema_nil_as_empty:
  "ArraySchema_Validate s None = ArraySchema_Validate s (Some []) \<and>
   ArraySchema_Validate_run s None = ArraySchema_Validate_run s (Some []) \<and>
   ArraySchema_Validate (build_array cs) None = ArraySchema_Validate (build_array cs) (Some []) \<and>
   ArraySchema_Validate (ArraySchema_Min Array 1) None
     = Some (ErrorString ''array length must be at least 1'') \<and>
   ((\<forall>c\<in>set cs. admits_empty c) \<and> 0 < n \<longrightarrow>
      ArraySchema_Validate (build_array (cs @ CMin n # cs')) None
        = Some (ErrorString (''array length must be at least '' @ fmt_d n))) \<and>
   ((\<forall>c\<in>set cs. admits_empty c) \<longrightarrow> ArraySchema_Validate (build_array cs) None = None)"
proof (intro conjI impI)
  show run: "ArraySchema_Validate_run s None = ArraySchema_Validate_run s (Some [])"
    by (rule ArraySchema_Validate_nil)
  then show "ArraySchema_Validate s None = ArraySchema_Validate s (Some [])"
    by (simp add: ArraySchema_Validate_def)
  show "ArraySchema_Validate (build_array cs) None
          = ArraySchema_Validate (build_array cs) (Some [])"
    by (simp add: ArraySchema_Validate_def ArraySchema_Validate_nil)
next
  show "ArraySchema_Validate (ArraySchema_Min Array 1) None
     = Some (ErrorString ''array length must be at least 1'')"
    by (simp add: ArraySchema_Validate_def ArraySchema_Validate_nil
          ArraySchema_Validate_empty_run validators_Min_1 Min_1_rejects)
next
  assume h: "(\<forall>c\<in>set cs. admits_empty c) \<and> 0 < n"
  let ?vs = "validators (build_array (cs @ CMin n # cs'))"
  let ?i = "length cs"
  have vs: "?vs = map constraint_validator cs @ constraint_validator (CMin n)
                    # map constraint_validator cs'"
    by (simp add: validators_build_array)
  have "?i < length ?vs" by (simp add: vs)
  moreover have "\<forall>j<?i. (?vs ! j) (Some []) = None"
    using h by (simp add: vs nth_append admits_empty_accepts)
  moreover have "(?vs ! ?i) (Some [])
      = Some (ErrorString (''array length must be at least '' @ fmt_d n))"
    using h by (simp add: vs nth_append positive_Min_rejects)
  ultimately have "run_validators ?vs 0 (Some [])
      = (Some (ErrorString (''array length must be at least '' @ fmt_d n)), [0..<0 + Suc ?i])"
    by (rule run_validators_first_failure)
  then show "ArraySchema_Validate (build_array (cs @ CMin n # cs')) None
        = Some (ErrorString (''array length must be at least '' @ fmt_d n))"
    by (simp add: ArraySchema_Validate_def ArraySchema_Validate_nil
          ArraySchema_Validate_empty_run)
next
  assume "\<forall>c\<in>set cs. admits_empty c"
  then have "\<forall>p\<in>set (validators (build_array cs)). p (Some []) = None"
    by (auto simp: validators_build_array admits_empty_accepts)
  then have "run_validators (validators (build_array cs)) 0 (Some [])
      = (None, [0..<0 + length (validators (build_array cs))])"
    by (rule run_validators_all_pass)
  then show "ArraySchema_Validate (build_array cs) None = None"
    by (simp add: ArraySchema_Validate_def ArraySchema_Validate_nil
          ArraySchema_Validate_empty_run)
qed

theorem ArraySchema_nil_as_empty_witness:
  "ArraySchema_Validate
     (build_array [CMax 4, CItems (\<lambda>item::int. if item \<le> 0
                                      then Some (ErrorString ''item must be positive'')
                                      else None),
                   CUniqueItems (\<lambda>item. Inr (fmt_d item))]) None = None \<and>
   ArraySchema_Validate
     (build_array [CMax 4, CMin 2, CUniqueItems (\<lambda>item::int. Inr (fmt_d item))]) None
     = Some (ErrorString ''array length must be at least 2'')"
proof -
  let ?items = "CItems (\<lambda>item::int. if item \<le> 0
                                      then Some (ErrorString ''item must be positive'')
                                      else None)"
  let ?unique = "CUniqueItems (\<lambda>item::int. Inr (fmt_d item))"
  have d2: "fmt_d 2 = ''2''" by (simp add: fmt_d_def dec_nat.simps)
  have 1: "ArraySchema_Validate (build_array [CMax 4, ?items, ?unique]) None = None"
    using ArraySchema_nil_as_empty[THEN conjunct2, THEN conjunct2, THEN conjunct2,
        THEN conjunct2, THEN conjunct2, of "[CMax 4, ?items, ?unique]"]
    by simp
  have "(\<forall>c\<in>set [CMax 4 :: int array_constraint]. admits_empty c) \<and> (0::int) < 2"
    by simp
  from ArraySchema_nil_as_empty[THEN conjunct2, THEN conjunct2, THEN conjunct2,
        THEN conjunct2, THEN conjunct1, THEN mp, OF this, of "[?unique]"]
  have 2: "ArraySchema_Validate (build_array [CMax 4, CMin 2, ?unique]) None
     = Some (ErrorString ''array length must be at least 2'')"
    by (simp add: d2)
  from 1 2 show ?thesis by (intro conjI)
qed
section \<open>Pointers, and schemas without validators\<close>

lemma Ptr_eval:
  "PointerSchema_Validate (Ptr f) p = (case p of None \<Rightarrow> None | Some v \<Rightarrow> f v)"
  by (cases p; cases "f (the p)")
     (simp_all add: PointerSchema_Validate_def Ptr_def PointerSchema_Custom_def Schema_Custom_def
        Pointer_def Schema_Validate_def Schema_Validate_run_def)

lemma Ptr_Required_eval:
  "PointerSchema_Validate (PointerSchema_Required (Ptr f)) p
     = (case p of None \<Rightarrow> Some ErrValueRequired | Some v \<Rightarrow> f v)"
  by (cases p; cases "f (the p)")
     (simp_all add: PointerSchema_Validate_def Ptr_def PointerSchema_Custom_def Schema_Custom_def
        Pointer_def Schema_Validate_def Schema_Validate_run_def PointerSchema_Required_def)

lemma String_Min_3_eval:
  "StringSchema_Validate (StringSchema_Min String 3) v
     = (if int (length v) < 3 then Some (ErrorString ''length must be at least 3'') else None)"
  by (simp add: StringSchema_Validate_def StringSchema_Validate_run_def StringSchema_Min_def
        String_def Schema_Validate_run_def fmt_d_def dec_nat.simps)

text \<open>
  Claim C7. With \<open>schema = Ptr(String().Min(3))\<close>: \<open>Validate\<close> on a pointer to \<open>"hi"\<close> returns
  the error \<open>length must be at least 3\<close>; on the nil pointer it returns no error; and
  \<open>schema.Required()\<close> returns \<open>ErrValueRequired\<close> on the nil pointer. (A pointer to
  \<open>"hello"\<close> passes, and \<open>Required\<close> does not change the result on a pointer that is not
  nil.)
\<close>

theorem Ptr_String_Min_3:
  "PointerSchema_Validate (Ptr (StringSchema_Validate (StringSchema_Min String 3))) (Some ''hi'')
     = Some (ErrorString ''length must be at least 3'') \<and>
   PointerSchema_Validate (Ptr (StringSchema_Validate (StringSchema_Min String 3))) None = None \<and>
   PointerSchema_Validate
     (PointerSchema_Required (Ptr (StringSchema_Validate (StringSchema_Min String 3)))) None
     = Some ErrValueRequired \<and>
   PointerSchema_Validate (Ptr (StringSchema_Validate (StringSchema_Min String 3)))
     (Some ''hello'') = None \<and>
   PointerSchema_Validate
     (PointerSchema_Required (Ptr (StringSchema_Validate (StringSchema_Min String 3))))
     (Some ''hi'')
     = Some (ErrorString ''length must be at least 3'')"
  by (simp add: Ptr_eval Ptr_Required_eval String_Min_3_eval)

lemma Validate_loop_no_fields: "Validate_loop Map.empty order boxed = None"
  by (induction order) simp_all

lemma ValidateMap_loop_no_fields: "ValidateMap_loop Map.empty order m = None"
  by (induction order) simp_all

lemma Object_no_fields: "ObjectSchema_Validate order (Object T) v = None"
  by (simp add: Object_Validate_cases Object_def Validate_loop_no_fields
        ValidateMap_loop_no_fields split: any.splits)

text \<open>
  Claim C9. A schema of any kind, as its constructor returns it (no constraint builder,
  no \<open>Custom\<close>, no \<open>Required\<close>), accepts every value of its type: the base schema, the
  string, number, boolean, pointer and array schemas (the nil pointer and the nil
  sequence included) and the object schema (on both paths and for every order of the
  \<open>range\<close>). The null schema takes an \<open>any\<close>; the value of its type is \<open>nil\<close>, which it
  accepts, and it accepts nothing else.
\<close>

theorem predicate_free_schemas_accept:
  "Schema_Validate New v = None \<and>
   StringSchema_Validate String sv = None \<and>
   NumberSchema_Validate (Number fmt) nv = None \<and>
   BoolSchema_Validate Bool bv = None \<and>
   NullSchema_Validate Null ANil = None \<and>
   (NullSchema_Validate Null av = None) = (av = ANil) \<and>
   PointerSchema_Validate Pointer pv = None \<and>
   ArraySchema_Validate Array arr = None \<and>
   ObjectSchema_Validate order (Object T) ov = None"
proof (intro conjI)
  show "Schema_Validate New v = None"
    by (simp add: Schema_Validate_def Schema_Validate_run_def New_def)
  show "StringSchema_Validate String sv = None"
    by (simp add: StringSchema_Validate_def StringSchema_Validate_run_def String_def
          Schema_Validate_run_def)
  show "NumberSchema_Validate (Number fmt) nv = None"
    by (simp add: NumberSchema_Validate_def NumberSchema_Validate_run_def Number_def
          Schema_Validate_run_def)
  show "BoolSchema_Validate Bool bv = None"
    by (simp add: BoolSchema_Validate_def Bool_def Schema_Validate_def Schema_Validate_run_def
          New_def)
  show "NullSchema_Validate Null ANil = None"
    by (simp add: NullSchema_Validate_def Null_def Schema_Validate_def Schema_Validate_run_def
          New_def)
  show "(NullSchema_Validate Null av = None) = (av = ANil)"
    by (simp add: NullSchema_Validate_def Null_def Schema_Validate_def Schema_Validate_run_def
          New_def)
  show "PointerSchema_Validate Pointer pv = None"
    by (simp add: PointerSchema_Validate_def Pointer_def Schema_Validate_def
          Schema_Validate_run_def)
  show "ArraySchema_Validate Array arr = None"
    by (simp add: ArraySchema_Validate_def ArraySchema_Validate_run_def Array_def
          Schema_Validate_run_def)
  show "ObjectSchema_Validate order (Object T) ov = None"
    by (rule Object_no_fields)
qed

section \<open>The per-key path of the object schema\<close>

lemma field_validator_per_key:
  "field_validator T name fn (map_index m name)
     = map_option (wrap_field name) (fn (per_key_arg T m name))"
proof -
  have "assert_or_zero T (map_index m name) = per_key_arg T m name"
    by (cases "m name")
       (simp_all add: assert_or_zero_def map_index_def per_key_arg_def type_assert_def)
  then show ?thesis
    by (cases "fn (per_key_arg T m name)") (simp_all add: field_validator_def wrap_field_def)
qed

lemma ValidateMap_loop_per_key:
  assumes "registered s fns"
  shows "ValidateMap_loop (fieldValidators s) order m = per_key_path (obj_T s) fns order m"
proof (induction order)
  case Nil
  then show ?case by (simp add: per_key_path_def)
next
  case (Cons name rest)
  show ?case
  proof (cases "fns name")
    case None
    with assms have "fieldValidators s name = None" by (simp add: registered_def)
    with None Cons show ?thesis by (simp add: per_key_path_def)
  next
    case (Some fn)
    with assms have fv: "fieldValidators s name = Some (field_validator (obj_T s) name fn)"
      by (simp add: registered_def)
    show ?thesis
    proof (cases "fn (per_key_arg (obj_T s) m name)")
      case None
      with fv Some Cons show ?thesis
        by (simp add: per_key_path_def field_validator_per_key)
    next
      case (Some err)
      with fv \<open>fns name = Some fn\<close> show ?thesis
        by (simp add: per_key_path_def field_validator_per_key)
    qed
  qed
qed

text \<open>
  Claim C10. When the value given to \<open>Validate\<close> is dynamically a \<open>map[string]any\<close>,
  \<open>Validate\<close> is \<open>ValidateMap\<close> on that map, and for a schema whose fields were registered
  with \<open>Field\<close> the result is that of the per-key path: each field's function is called
  on the entry under the field's name asserted to \<open>T\<close>, in the order of the \<open>range\<close>
  and up to the first error. The function receives the zero value of \<open>T\<close> when the key is
  absent (the entry is \<open>nil\<close> then, and an assertion on \<open>nil\<close> fails) and when the entry
  is not a \<open>T\<close>; neither case is an error by itself: the field's closure returns what
  the function returns on the zero value, wrapped with the field's name if it is an
  error.
\<close>

theorem ObjectSchema_per_key_path:
  "(to_any (obj_T s) x = AMap m \<longrightarrow>
      ObjectSchema_Validate order s x = ObjectSchema_ValidateMap order s m \<and>
      (registered s fns \<longrightarrow>
         ObjectSchema_Validate order s x = per_key_path (obj_T s) fns order m)) \<and>
   fieldValidators (ObjectSchema_Field s name fn) name
     = Some (field_validator (obj_T s) name fn) \<and>
   field_validator T name fn (map_index m name)
     = map_option (wrap_field name) (fn (per_key_arg T m name)) \<and>
   (m name = None \<longrightarrow> map_index m name = ANil \<and> per_key_arg T m name = zero_value T) \<and>
   type_assert T ANil = None \<and>
   (m name = Some entry \<and> type_assert T entry = None \<longrightarrow>
      per_key_arg T m name = zero_value T \<and>
      field_validator T name fn entry = map_option (wrap_field name) (fn (zero_value T))) \<and>
   (m name = Some entry \<and> type_assert T entry = Some tv \<longrightarrow> per_key_arg T m name = tv)"
proof (intro conjI impI)
  assume dyn: "to_any (obj_T s) x = AMap m"
  then show path: "ObjectSchema_Validate order s x = ObjectSchema_ValidateMap order s m"
    by (simp add: ObjectSchema_Validate_def)
  assume "registered s fns"
  from ValidateMap_loop_per_key[OF this, of order m] path
  show "ObjectSchema_Validate order s x = per_key_path (obj_T s) fns order m"
    by (simp add: ObjectSchema_ValidateMap_def)
next
  show "fieldValidators (ObjectSchema_Field s name fn) name
     = Some (field_validator (obj_T s) name fn)"
    by (simp add: ObjectSchema_Field_def)
  show "field_validator T name fn (map_index m name)
     = map_option (wrap_field name) (fn (per_key_arg T m name))"
    by (rule field_validator_per_key)
  show "type_assert T ANil = None"
    by (simp add: type_assert_def)
next
  assume "m name = None"
  then show "map_index m name = ANil" "per_key_arg T m name = zero_value T"
    by (simp_all add: map_index_def per_key_arg_def)
next
  assume h: "m name = Some entry \<and> type_assert T entry = None"
  then show "per_key_arg T m name = zero_value T"
    by (simp add: per_key_arg_def)
  from h show "field_validator T name fn entry = map_option (wrap_field name) (fn (zero_value T))"
    by (cases "fn (zero_value T)")
       (simp_all add: field_validator_def assert_or_zero_def wrap_field_def)
next
  assume "m name = Some entry \<and> type_assert T entry = Some tv"
  then show "per_key_arg T m name = tv"
    by (simp add: per_key_arg_def)
qed

theorem ObjectSchema_per_key_path_witness:
  "ObjectSchema_Validate [''inner'']
     (ObjectSchema_Field (Object (T_map :: (string \<Rightarrow> unit any option, unit) go_type)) ''inner''
        (\<lambda>v. if v ''k'' = None then Some (ErrorString ''k is missing'') else None))
     [''inner'' \<mapsto> AString ''not a map'']
   = Some (WrapError
             (''validation failed for field '' @ [CHR 0x22] @ ''inner'' @ [CHR 0x22]
              @ '': k is missing'')
             (ErrorString ''k is missing'')) \<and>
   ObjectSchema_Validate [''inner'']
     (ObjectSchema_Field (Object (T_map :: (string \<Rightarrow> unit any option, unit) go_type)) ''inner''
        (\<lambda>v. if v ''k'' = None then Some (ErrorString ''k is missing'') else None))
     [''inner'' \<mapsto> AMap [''k'' \<mapsto> ABool True]]
   = None"
proof -
  let ?T = "T_map :: (string \<Rightarrow> unit any option, unit) go_type"
  let ?fn = "\<lambda>v :: string \<Rightarrow> unit any option.
               if v ''k'' = None then Some (ErrorString ''k is missing'') else None"
  let ?s = "ObjectSchema_Field (Object ?T) ''inner'' ?fn"
  let ?fns = "[''inner'' \<mapsto> ?fn]"
  let ?x = "[''inner'' \<mapsto> AString ''not a map''] :: string \<Rightarrow> unit any option"
  let ?y = "[''inner'' \<mapsto> AMap [''k'' \<mapsto> ABool True]] :: string \<Rightarrow> unit any option"
  have reg: "registered ?s ?fns"
    using registered_Field[OF registered_Object, of ?T "''inner''" ?fn] by simp
  have T: "obj_T ?s = ?T"
    by (simp add: ObjectSchema_Field_def Object_def)
  have q: "fmt_q ''inner'' = [CHR 0x22] @ ''inner'' @ [CHR 0x22]"
    by (rule fmt_q_plain) (simp add: plain_byte_def)
  note path = ObjectSchema_per_key_path[THEN conjunct1, THEN mp, THEN conjunct2, THEN mp]
  have dx: "to_any (obj_T ?s) ?x = AMap ?x" and dy: "to_any (obj_T ?s) ?y = AMap ?y"
    unfolding T by (simp_all add: T_map_def)
  have argx: "per_key_arg ?T ?x ''inner'' = Map.empty"
    by (simp add: per_key_arg_def type_assert_def T_map_def)
  have argy: "per_key_arg ?T ?y ''inner'' = [''k'' \<mapsto> ABool True]"
    by (simp add: per_key_arg_def type_assert_def T_map_def)
  have 1: "ObjectSchema_Validate [''inner''] ?s ?x
             = Some (wrap_field ''inner'' (ErrorString ''k is missing''))"
    unfolding path[OF dx reg] T by (simp add: per_key_path_def argx)
  have 2: "ObjectSchema_Validate [''inner''] ?s ?y = None"
    unfolding path[OF dy reg] T by (simp add: per_key_path_def argy)
  from 1 2 show ?thesis
    by (simp add: wrap_field_def q)
qed

section \<open>The translation of a JSON Schema tree fails as a whole\<close>























end
